theory Spec2Isabelle
  imports Complex_Main
begin

section \<open>Numbers and arrays\<close>

text \<open>
  The pixel arrays of \<^verbatim>\<open>jwst.py\<close> are numpy arrays of floating-point numbers.
  A pixel is modelled as \<open>real option\<close>: \<open>None\<close> is the missing-value marker NaN and
  \<open>Some x\<close> a number, with exact real arithmetic in place of rounding (infinities do not
  occur). Arithmetic with NaN gives NaN and every comparison with NaN is false, as in
  IEEE arithmetic.
\<close>

type_synonym flt = "real option"

definition fadd :: "flt \<Rightarrow> flt \<Rightarrow> flt" where
  "fadd a b = (case (a, b) of (Some x, Some y) \<Rightarrow> Some (x + y) | _ \<Rightarrow> None)"

definition fsub :: "flt \<Rightarrow> flt \<Rightarrow> flt" where
  "fsub a b = (case (a, b) of (Some x, Some y) \<Rightarrow> Some (x - y) | _ \<Rightarrow> None)"

definition fmul :: "flt \<Rightarrow> flt \<Rightarrow> flt" where
  "fmul a b = (case (a, b) of (Some x, Some y) \<Rightarrow> Some (x * y) | _ \<Rightarrow> None)"

definition fabs :: "flt \<Rightarrow> flt" where
  "fabs a = map_option abs a"

definition fgt :: "flt \<Rightarrow> flt \<Rightarrow> bool" where
  "fgt a b = (case (a, b) of (Some x, Some y) \<Rightarrow> x > y | _ \<Rightarrow> False)"

text \<open>\<^verbatim>\<open>np.sum\<close> of a list of pixels.\<close>

definition fsum :: "flt list \<Rightarrow> flt" where
  "fsum l = foldr fadd l (Some 0)"

text \<open>
  A two-dimensional array is its shape and its cells; cells outside the shape are never
  read. Masks are arrays of numbers without NaN, so their cells are \<open>real\<close>. A mask is
  passed together with a frame of the same shape (\<open>congruent\<close>); the functions below read
  the mask at the positions of the frame and give their results the shape of the frame.
\<close>

record 'a array2 =
  nrows :: nat
  ncols :: nat
  cell :: "nat \<Rightarrow> nat \<Rightarrow> 'a"

definition congruent :: "'a array2 \<Rightarrow> 'b array2 \<Rightarrow> bool" where
  "congruent a b \<longleftrightarrow> nrows a = nrows b \<and> ncols a = ncols b"

definition is_mask :: "real array2 \<Rightarrow> bool" where
  "is_mask m \<longleftrightarrow> (\<forall>i<nrows m. \<forall>j<ncols m. cell m i j = 0 \<or> cell m i j = 1)"

definition real_valued :: "flt array2 \<Rightarrow> bool" where
  "real_valued d \<longleftrightarrow> (\<forall>i<nrows d. \<forall>j<ncols d. cell d i j \<noteq> None)"

text \<open>\<^verbatim>\<open>np.zeros(shape)\<close> and \<^verbatim>\<open>np.ones(shape)\<close>.\<close>

definition zeros :: "nat \<Rightarrow> nat \<Rightarrow> real array2" where
  "zeros r c = \<lparr>nrows = r, ncols = c, cell = (\<lambda>i j. 0)\<rparr>"

definition ones :: "nat \<Rightarrow> nat \<Rightarrow> real array2" where
  "ones r c = \<lparr>nrows = r, ncols = c, cell = (\<lambda>i j. 1)\<rparr>"

text \<open>\<^verbatim>\<open>a[:, j]\<close>, the flattened array, and the strided view \<^verbatim>\<open>a[k::2, :]\<close>.\<close>

definition column :: "'a array2 \<Rightarrow> nat \<Rightarrow> 'a list" where
  "column a j = map (\<lambda>i. cell a i j) [0..<nrows a]"

definition flat :: "'a array2 \<Rightarrow> 'a list" where
  "flat a = concat (map (\<lambda>i. map (cell a i) [0..<ncols a]) [0..<nrows a])"

definition rows_from :: "nat \<Rightarrow> 'a array2 \<Rightarrow> 'a array2" where
  "rows_from k a =
     \<lparr>nrows = (nrows a - k + 1) div 2, ncols = ncols a, cell = (\<lambda>i j. cell a (2 * i + k) j)\<rparr>"

section \<open>Medians\<close>

text \<open>
  The median of a list of numbers: the middle element of the sorted list, or the mean of
  the two middle elements. numpy gives NaN for an empty list. \<^verbatim>\<open>np.nanmedian\<close> drops
  the NaN entries first; \<^verbatim>\<open>np.median\<close> gives NaN as soon as one entry is NaN.
\<close>

definition median :: "real list \<Rightarrow> flt" where
  "median xs = (let s = sort xs; n = length s in
     if n = 0 then None
     else if odd n then Some (s ! (n div 2))
     else Some ((s ! (n div 2 - 1) + s ! (n div 2)) / 2))"

definition nanmedian :: "flt list \<Rightarrow> flt" where
  "nanmedian l = median [x. Some x \<leftarrow> l]"

definition np_median :: "flt list \<Rightarrow> flt" where
  "np_median l = (if None \<in> set l then None else median (map the l))"

text \<open>\<^verbatim>\<open>np.nanmedian(a, axis = 0)\<close>: one median per column.\<close>

definition nanmedian_axis0 :: "flt array2 \<Rightarrow> flt list" where
  "nanmedian_axis0 a = map (\<lambda>j. nanmedian (column a j)) [0..<ncols a]"

section \<open>Background outlier refinement: \<^verbatim>\<open>cc_uniluminated_outliers\<close>\<close>

text \<open>\<^verbatim>\<open>nan_data = np.copy(data); nan_data[mask == 0] = np.nan\<close>\<close>

definition nan_where_zero :: "flt array2 \<Rightarrow> real array2 \<Rightarrow> flt array2" where
  "nan_where_zero data msk =
     data\<lparr>cell := (\<lambda>i j. if cell msk i j = 0 then None else cell data i j)\<rparr>"

text \<open>The two robust column statistics of the function: medians and MADs.\<close>

definition cc_column_medians :: "flt array2 \<Rightarrow> real array2 \<Rightarrow> flt list" where
  "cc_column_medians data msk = nanmedian_axis0 (nan_where_zero data msk)"

definition cc_column_mads :: "flt array2 \<Rightarrow> real array2 \<Rightarrow> flt list" where
  "cc_column_mads data msk =
     (let nan_data = nan_where_zero data msk;
          column_medians = cc_column_medians data msk
      in nanmedian_axis0
           (nan_data\<lparr>cell := (\<lambda>i j. fabs (fsub (cell nan_data i j) (column_medians ! j)))\<rparr>))"

definition cc_uniluminated_outliers :: "flt array2 \<Rightarrow> real array2 \<Rightarrow> real \<Rightarrow> real array2" where
  "cc_uniluminated_outliers data msk nsigma =
     (let column_medians = cc_column_medians data msk;
          column_mads = cc_column_mads data msk;
          new_mask = (ones (nrows data) (ncols data))
            \<lparr>cell := (\<lambda>i j.
               if fgt (fabs (fsub (cell data i j) (column_medians ! j)))
                      (fmul (fmul (Some nsigma) (column_mads ! j)) (Some (14826 / 10000)))
               then 0 else 1)\<rparr>
      in \<lparr>nrows = nrows data, ncols = ncols data,
          cell = (\<lambda>i j. cell msk i j * cell new_mask i j)\<rparr>)"

section \<open>ROEBA model: \<^verbatim>\<open>get_roeba\<close>\<close>

text \<open>\<^verbatim>\<open>np.zeros(shape)\<close> as an array of pixels, the assignment \<^verbatim>\<open>a[k::2, :] = v\<close> of a
  scalar, and \<^verbatim>\<open>a += v\<close> for a vector \<open>v\<close> with one entry per column.\<close>

definition fzeros :: "nat \<Rightarrow> nat \<Rightarrow> flt array2" where
  "fzeros r c = \<lparr>nrows = r, ncols = c, cell = (\<lambda>i j. Some 0)\<rparr>"

definition set_rows_from :: "nat \<Rightarrow> 'a \<Rightarrow> 'a array2 \<Rightarrow> 'a array2" where
  "set_rows_from k v a = a\<lparr>cell := (\<lambda>i j. if k \<le> i \<and> even (i - k) then v else cell a i j)\<rparr>"

definition add_row_vector :: "flt array2 \<Rightarrow> flt list \<Rightarrow> flt array2" where
  "add_row_vector a v = a\<lparr>cell := (\<lambda>i j. fadd (cell a i j) (v ! j))\<rparr>"

definition get_roeba :: "flt array2 \<Rightarrow> real array2 \<Rightarrow> flt array2" where
  "get_roeba data msk =
     (let nan_data = nan_where_zero data msk;
          roeba = fzeros (nrows data) (ncols data);
          roeba = set_rows_from 0 (nanmedian (flat (rows_from 0 nan_data))) roeba;
          roeba = set_rows_from 1 (nanmedian (flat (rows_from 1 nan_data))) roeba
      in add_row_vector roeba (nanmedian_axis0 nan_data))"

text \<open>
  The quantities of the specification: the values of the pixels at the positions \<open>idx\<close>
  that the mask keeps (and that are numbers), the positions of the rows of one parity, and
  the positions of one column.
\<close>

definition kept :: "flt array2 \<Rightarrow> real array2 \<Rightarrow> (nat \<times> nat) list \<Rightarrow> real list" where
  "kept data msk idx =
     map (\<lambda>(i, j). the (cell data i j))
       (filter (\<lambda>(i, j). cell msk i j \<noteq> 0 \<and> cell data i j \<noteq> None) idx)"

definition parity_cells :: "nat \<Rightarrow> 'a array2 \<Rightarrow> (nat \<times> nat) list" where
  "parity_cells k a =
     concat (map (\<lambda>i. map (Pair i) [0..<ncols a]) (filter (\<lambda>i. i mod 2 = k) [0..<nrows a]))"

definition column_cells :: "'a array2 \<Rightarrow> nat \<Rightarrow> (nat \<times> nat) list" where
  "column_cells a j = map (\<lambda>i. (i, j)) [0..<nrows a]"

text \<open>The synthetic 10 x 6 frame: odd rows at 5, even rows at 2, plus the column ramp.\<close>

definition synthetic :: "flt array2" where
  "synthetic = \<lparr>nrows = 10, ncols = 6, cell = (\<lambda>i j. Some ((if odd i then 5 else 2) + real j))\<rparr>"

text \<open>A 2 x 2 frame used to instantiate the theorems.\<close>

definition frame22 :: "flt array2" where
  "frame22 = \<lparr>nrows = 2, ncols = 2, cell = (\<lambda>i j. [[Some 1, Some 2], [Some 3, Some 4]] ! i ! j)\<rparr>"

section \<open>Illumination mask: \<^verbatim>\<open>get_uniluminated_mask\<close>\<close>

text \<open>\<^verbatim>\<open>cc = np.median(data, axis = 0)\<close>\<close>

definition np_median_axis0 :: "flt array2 \<Rightarrow> flt list" where
  "np_median_axis0 a = map (\<lambda>j. np_median (column a j)) [0..<ncols a]"

text \<open>
  The body of the loop over the columns: the residuals of column \<open>i\<close>, their MAD, the
  scaled \<open>sigma\<close>, and the assignment \<^verbatim>\<open>mask[idx, i] = 0\<close> at the rows \<open>idx\<close> where the pixel
  exceeds \<^verbatim>\<open>cc[i] + nsigma * sigma\<close>.
\<close>

definition column_sigma :: "flt array2 \<Rightarrow> flt list \<Rightarrow> nat \<Rightarrow> flt" where
  "column_sigma data cc i =
     (let column_residuals = map (\<lambda>x. fsub x (cc ! i)) (column data i);
          mad = nanmedian (map (\<lambda>x. fabs (fsub x (nanmedian column_residuals))) column_residuals)
      in fmul mad (Some (14826 / 10000)))"

definition mask_column :: "flt array2 \<Rightarrow> real \<Rightarrow> flt list \<Rightarrow> nat \<Rightarrow> real array2 \<Rightarrow> real array2" where
  "mask_column data nsigma cc i msk =
     (let sigma = column_sigma data cc i
      in msk\<lparr>cell := (\<lambda>r c.
           if c = i \<and> fgt (cell data r i) (fadd (cc ! i) (fmul (Some nsigma) sigma))
           then 0 else cell msk r c)\<rparr>)"

definition get_uniluminated_mask :: "flt array2 \<Rightarrow> real \<Rightarrow> real array2" where
  "get_uniluminated_mask data nsigma =
     (let cc = np_median_axis0 data;
          msk = ones (nrows data) (ncols data)
      in fold (mask_column data nsigma cc) [0..<length cc] msk)"

text \<open>
  The median absolute deviation of a list of numbers, and the numbers of a column of a
  frame.
\<close>

definition mad_of :: "real list \<Rightarrow> flt" where
  "mad_of xs = (case median xs of None \<Rightarrow> None
     | Some m \<Rightarrow> median (map (\<lambda>x. \<bar>x - m\<bar>) xs))"

definition column_values :: "flt array2 \<Rightarrow> nat \<Rightarrow> real list" where
  "column_values data c = map the (column data c)"

text \<open>A frame of one column with one bright pixel.\<close>

definition frame51 :: "flt array2" where
  "frame51 = \<lparr>nrows = 5, ncols = 1,
     cell = (\<lambda>i j. [[Some 1], [Some 2], [Some 100], [Some 2], [Some 3]] ! i ! j)\<rparr>"

section \<open>Last-minus-first slope: \<^verbatim>\<open>get_last_minus_first\<close>\<close>

text \<open>
  The group-level data is a four-dimensional array (integrations, groups, rows, columns);
  the slope estimate is a three-dimensional one (integrations, rows, columns).
\<close>

record ramp =
  nints :: nat
  ngroups :: nat
  rrows :: nat
  rcols :: nat
  px :: "nat \<Rightarrow> nat \<Rightarrow> nat \<Rightarrow> nat \<Rightarrow> flt"

record 'a array3 =
  len3 :: nat
  rows3 :: nat
  cols3 :: nat
  cell3 :: "nat \<Rightarrow> nat \<Rightarrow> nat \<Rightarrow> 'a"

datatype error = IndexError

text \<open>
  An integer index into an axis of length \<open>n\<close>: Python counts a negative index from the
  end and raises \<^verbatim>\<open>IndexError\<close> outside \<open>-n \<le> g < n\<close>.
\<close>

definition py_index :: "nat \<Rightarrow> int \<Rightarrow> error + nat" where
  "py_index n g =
     (if 0 \<le> g \<and> g < int n then Inr (nat g)
      else if - int n \<le> g \<and> g < 0 then Inr (nat (g + int n))
      else Inl IndexError)"

text \<open>\<^verbatim>\<open>data[i, g, :, :]\<close> for an index \<open>g\<close> in range, and \<^verbatim>\<open>a - v\<close> for a scalar \<open>v\<close>.\<close>

definition frame :: "ramp \<Rightarrow> nat \<Rightarrow> nat \<Rightarrow> flt array2" where
  "frame data i g = \<lparr>nrows = rrows data, ncols = rcols data, cell = px data i g\<rparr>"

definition sub_scalar :: "flt array2 \<Rightarrow> flt \<Rightarrow> flt array2" where
  "sub_scalar a v = a\<lparr>cell := (\<lambda>r c. fsub (cell a r c) v)\<rparr>"

text \<open>
  The loop over the integrations. Each pass indexes the two groups (which raises for an
  index out of range), removes the median of each group and stores the difference in
  \<^verbatim>\<open>lmf[i, :, :]\<close>.
\<close>

fun lmf_loop :: "ramp \<Rightarrow> int \<Rightarrow> int \<Rightarrow> nat list \<Rightarrow> flt array3 \<Rightarrow> error + flt array3" where
  "lmf_loop data min_group max_group [] lmf = Inr lmf"
| "lmf_loop data min_group max_group (i # is) lmf =
     (case py_index (ngroups data) max_group of
        Inl e \<Rightarrow> Inl e
      | Inr gl \<Rightarrow>
         (case py_index (ngroups data) min_group of
            Inl e \<Rightarrow> Inl e
          | Inr gf \<Rightarrow>
             (let last_group = sub_scalar (frame data i gl) (nanmedian (flat (frame data i gl)));
                  first_group = sub_scalar (frame data i gf) (nanmedian (flat (frame data i gf)))
              in lmf_loop data min_group max_group is
                   (lmf\<lparr>cell3 := (\<lambda>k r c.
                      if k = i then fsub (cell last_group r c) (cell first_group r c)
                      else cell3 lmf k r c)\<rparr>))))"

text \<open>\<^verbatim>\<open>np.nanmedian(lmf, axis = 0)\<close>\<close>

definition nanmedian3_axis0 :: "flt array3 \<Rightarrow> flt array2" where
  "nanmedian3_axis0 a =
     \<lparr>nrows = rows3 a, ncols = cols3 a,
      cell = (\<lambda>r c. nanmedian (map (\<lambda>i. cell3 a i r c) [0..<len3 a]))\<rparr>"

definition get_last_minus_first ::
    "ramp \<Rightarrow> int option \<Rightarrow> int option \<Rightarrow> error + (flt array3 \<times> flt array2)" where
  "get_last_minus_first data min_group max_group =
     (let nintegrations = nints data;
          lmf = \<lparr>len3 = nintegrations, rows3 = rrows data, cols3 = rcols data,
                 cell3 = (\<lambda>i r c. Some 0)\<rparr>;
          max_group = (case max_group of None \<Rightarrow> int (ngroups data) - 1 | Some g \<Rightarrow> g);
          min_group = (case min_group of None \<Rightarrow> 0 | Some g \<Rightarrow> g)
      in case lmf_loop data min_group max_group [0..<nintegrations] lmf of
           Inl e \<Rightarrow> Inl e
         | Inr lmf \<Rightarrow> Inr (lmf, nanmedian3_axis0 lmf))"

text \<open>
  The group indices a call uses when an argument is omitted, and the slope of the
  specification for integration \<open>i\<close> and groups \<open>gf\<close> (first) and \<open>gl\<close> (last).
\<close>

definition group_or :: "int \<Rightarrow> int option \<Rightarrow> int" where
  "group_or d g = (case g of None \<Rightarrow> d | Some v \<Rightarrow> v)"

definition slope :: "ramp \<Rightarrow> nat \<Rightarrow> nat \<Rightarrow> nat \<Rightarrow> nat \<Rightarrow> nat \<Rightarrow> flt" where
  "slope data gf gl i r c =
     fsub (fsub (px data i gl r c) (nanmedian (flat (frame data i gl))))
          (fsub (px data i gf r c) (nanmedian (flat (frame data i gf))))"

text \<open>A ramp of one integration, two groups and 1 x 2 pixels.\<close>

definition ramp12 :: ramp where
  "ramp12 = \<lparr>nints = 1, ngroups = 2, rrows = 1, rcols = 2,
     px = (\<lambda>i g r c. [[Some 0, Some 1], [Some 10, Some 13]] ! g ! c)\<rparr>"

text \<open>The same ramp without integrations.\<close>

definition ramp02 :: ramp where
  "ramp02 = ramp12\<lparr>nints := 0\<rparr>"

section \<open>LOOM model: \<^verbatim>\<open>get_loom\<close>\<close>

text \<open>
  Sums of a mask along an axis, the slice \<^verbatim>\<open>v[k::2]\<close> of a vector, and the element-wise
  product \<^verbatim>\<open>mask * data\<close>.
\<close>

definition sum_axis0 :: "real array2 \<Rightarrow> real list" where
  "sum_axis0 a = map (\<lambda>j. sum_list (column a j)) [0..<ncols a]"

definition sum_axis1 :: "real array2 \<Rightarrow> real list" where
  "sum_axis1 a = map (\<lambda>i. sum_list (map (cell a i) [0..<ncols a])) [0..<nrows a]"

definition every_other :: "nat \<Rightarrow> 'a list \<Rightarrow> 'a list" where
  "every_other k v = map (\<lambda>i. v ! (2 * i + k)) [0..<(length v - k + 1) div 2]"

definition mask_times :: "real array2 \<Rightarrow> flt array2 \<Rightarrow> flt array2" where
  "mask_times msk data = data\<lparr>cell := (\<lambda>i j. fmul (Some (cell msk i j)) (cell data i j))\<rparr>"

text \<open>
  The assignments that fill the matrix: \<^verbatim>\<open>A[i, j] = v\<close>, \<^verbatim>\<open>A[i, k:] = v\<close> and
  \<^verbatim>\<open>A[k:, j] = v\<close> for a vector \<open>v\<close>.
\<close>

definition set_cell :: "nat \<Rightarrow> nat \<Rightarrow> 'a \<Rightarrow> 'a array2 \<Rightarrow> 'a array2" where
  "set_cell i j v a = a\<lparr>cell := (\<lambda>r c. if r = i \<and> c = j then v else cell a r c)\<rparr>"

definition set_row_tail :: "nat \<Rightarrow> nat \<Rightarrow> 'a list \<Rightarrow> 'a array2 \<Rightarrow> 'a array2" where
  "set_row_tail i k v a = a\<lparr>cell := (\<lambda>r c. if r = i \<and> k \<le> c then v ! (c - k) else cell a r c)\<rparr>"

definition set_col_tail :: "nat \<Rightarrow> nat \<Rightarrow> 'a list \<Rightarrow> 'a array2 \<Rightarrow> 'a array2" where
  "set_col_tail k j v a = a\<lparr>cell := (\<lambda>r c. if c = j \<and> k \<le> r then v ! (r - k) else cell a r c)\<rparr>"

text \<open>
  The matrix \<open>A\<close> and the vector \<open>b\<close> of the normal equations, filled in the order of the
  source; the loop over the columns sets the diagonal and the right-hand sides. The total
  \<^verbatim>\<open>npix\<close> of the source is computed there and never used.
\<close>

definition loom_column_step ::
    "flt array2 \<Rightarrow> real array2 \<Rightarrow> real list \<Rightarrow> nat \<Rightarrow> real array2 \<times> flt list \<Rightarrow> real array2 \<times> flt list" where
  "loom_column_step data msk nrows_j j Ab =
     (set_cell (j + 2) (j + 2) (nrows_j ! j) (fst Ab),
      (snd Ab)[j + 2 := fsum (column (mask_times msk data) j)])"

definition loom_system :: "flt array2 \<Rightarrow> real array2 \<Rightarrow> real array2 \<times> flt list" where
  "loom_system data msk =
     (let ncolumns = ncols data;
          A = zeros (ncolumns + 2) (ncolumns + 2);
          b = replicate (ncolumns + 2) (Some 0);
          nrows_j = sum_axis0 msk;
          neven_j = sum_axis0 (rows_from 0 msk);
          nodd_j = sum_axis0 (rows_from 1 msk);
          ncols_i = sum_axis1 msk;
          nE = sum_list (every_other 0 ncols_i);
          nO = sum_list (every_other 1 ncols_i);
          A = set_row_tail 0 2 nodd_j (set_cell 0 1 0 (set_cell 0 0 nO A));
          b = b[0 := fsum (flat (mask_times (rows_from 1 msk) (rows_from 1 data)))];
          A = set_row_tail 1 2 neven_j (set_cell 1 1 nE (set_cell 1 0 0 A));
          b = b[1 := fsum (flat (mask_times (rows_from 0 msk) (rows_from 0 data)))];
          A = set_col_tail 2 1 neven_j (set_col_tail 2 0 nodd_j A)
      in fold (loom_column_step data msk nrows_j) [0..<ncolumns] (A, b))"

text \<open>
  \<^verbatim>\<open>loom[k::2, :] += v\<close> and \<^verbatim>\<open>loom[:, j] += v\<close> for a scalar \<open>v\<close>.
\<close>

definition add_rows_from :: "nat \<Rightarrow> flt \<Rightarrow> flt array2 \<Rightarrow> flt array2" where
  "add_rows_from k v a =
     a\<lparr>cell := (\<lambda>i j. if k \<le> i \<and> even (i - k) then fadd (cell a i j) v else cell a i j)\<rparr>"

definition add_column :: "flt list \<Rightarrow> nat \<Rightarrow> flt array2 \<Rightarrow> flt array2" where
  "add_column x j a = a\<lparr>cell := (\<lambda>i c. if c = j then fadd (cell a i c) (x ! (j + 2)) else cell a i c)\<rparr>"

text \<open>
  What the function returns: the model alone, or the model and the parameter vector.
\<close>

datatype loom_result = Model "flt array2" | ModelParameters "flt array2" "flt list"

text \<open>
  \<^verbatim>\<open>scipy.sparse.linalg.lsmr\<close> is a library routine; \<open>get_loom\<close> takes it as the
  parameter \<open>lsmr\<close>, the map from \<open>A\<close> and \<open>b\<close> to the solution vector \<^verbatim>\<open>lsmr(A, b)[0]\<close>,
  which has one entry per column of \<open>A\<close>.
\<close>

definition get_loom ::
    "(real array2 \<Rightarrow> flt list \<Rightarrow> flt list) \<Rightarrow> flt array2 \<Rightarrow> real array2 \<Rightarrow> bool \<Rightarrow> loom_result" where
  "get_loom lsmr data msk return_parameters =
     (let ncolumns = ncols data;
          Ab = loom_system data msk;
          x = lsmr (fst Ab) (snd Ab);
          loom = fzeros (nrows data) (ncols data);
          loom = add_rows_from 1 (x ! 0) loom;
          loom = add_rows_from 0 (x ! 1) loom;
          loom = fold (add_column x) [0..<ncolumns] loom
      in if \<not> return_parameters then Model loom else ModelParameters loom x)"

text \<open>
  The quantities of the specification: the number of 1-entries of a mask at the positions
  \<open>idx\<close>, and the positions of one column on the rows of one parity.
\<close>

definition count_ones :: "real array2 \<Rightarrow> (nat \<times> nat) list \<Rightarrow> real" where
  "count_ones msk idx = real (length (filter (\<lambda>(i, j). cell msk i j = 1) idx))"

definition parity_column_cells :: "nat \<Rightarrow> 'a array2 \<Rightarrow> nat \<Rightarrow> (nat \<times> nat) list" where
  "parity_column_cells k a j = filter (\<lambda>(i, c). i mod 2 = k) (column_cells a j)"

definition model_of :: "loom_result \<Rightarrow> flt array2" where
  "model_of res = (case res of Model m \<Rightarrow> m | ModelParameters m x \<Rightarrow> m)"

text \<open>The matrix, the right-hand side and the solution vector inside \<open>get_loom\<close>.\<close>

definition loom_A :: "flt array2 \<Rightarrow> real array2 \<Rightarrow> real array2" where
  "loom_A data msk = fst (loom_system data msk)"

definition loom_b :: "flt array2 \<Rightarrow> real array2 \<Rightarrow> flt list" where
  "loom_b data msk = snd (loom_system data msk)"

definition loom_x :: "(real array2 \<Rightarrow> flt list \<Rightarrow> flt list) \<Rightarrow> flt array2 \<Rightarrow> real array2 \<Rightarrow> flt list" where
  "loom_x lsmr data msk = lsmr (loom_A data msk) (loom_b data msk)"

text \<open>
  The contract of the solver. For a real matrix \<open>A\<close> and right-hand side \<open>b\<close>, \<open>residual\<close> is
  the squared norm of \<open>A y - b\<close>; a minimum-norm least-squares solution minimises the
  residual, and has the least squared norm among the vectors that do.
\<close>

definition lin_apply :: "real array2 \<Rightarrow> real list \<Rightarrow> nat \<Rightarrow> real" where
  "lin_apply A y i = sum_list (map (\<lambda>k. cell A i k * y ! k) [0..<ncols A])"

definition residual :: "real array2 \<Rightarrow> real list \<Rightarrow> real list \<Rightarrow> real" where
  "residual A b y = sum_list (map (\<lambda>i. (lin_apply A y i - b ! i)\<^sup>2) [0..<nrows A])"

definition norm2 :: "real list \<Rightarrow> real" where
  "norm2 y = sum_list (map (\<lambda>v. v\<^sup>2) y)"

definition is_min_norm_lsq :: "real array2 \<Rightarrow> real list \<Rightarrow> real list \<Rightarrow> bool" where
  "is_min_norm_lsq A b x \<longleftrightarrow>
     length x = ncols A
     \<and> (\<forall>y. length y = ncols A \<longrightarrow>
           residual A b x \<le> residual A b y
         \<and> (residual A b y \<le> residual A b x \<longrightarrow> norm2 x \<le> norm2 y))"

text \<open>
  Instances: a solver that returns the minimum-norm solution for \<open>frame22\<close> under the
  all-ones mask, and a 1 x 2 frame whose second column is masked out, with the
  minimum-norm solution of its system.
\<close>

definition lsmr22 :: "real array2 \<Rightarrow> flt list \<Rightarrow> flt list" where
  "lsmr22 A b = map Some [9 / 4, 1 / 4, 3 / 4, 7 / 4]"

definition frame12 :: "flt array2" where
  "frame12 = \<lparr>nrows = 1, ncols = 2, cell = (\<lambda>i j. [[Some 3, Some 7]] ! i ! j)\<rparr>"

definition mask12 :: "real array2" where
  "mask12 = \<lparr>nrows = 1, ncols = 2, cell = (\<lambda>i j. [[1, 0]] ! i ! j)\<rparr>"

definition lsmr12 :: "real array2 \<Rightarrow> flt list \<Rightarrow> flt list" where
  "lsmr12 A b = map Some [0, 3 / 2, 3 / 2, 0]"

section \<open>Correction driver: the pre-amp correction of \<^verbatim>\<open>stage1\<close>\<close>

text \<open>
  The block of \<^verbatim>\<open>stage1\<close> that runs for \<^verbatim>\<open>preamp_correction\<close> \<^verbatim>\<open>'loom'\<close> or \<^verbatim>\<open>'roeba'\<close>. The
  pipeline steps and the files around it are parameters: \<open>superbias\<close> is the data of the
  superbias step, \<open>products_found\<close> says whether the file of an earlier run exists, and
  \<open>loaded\<close> is the data read from that file.
\<close>

datatype preamp = Loom | Roeba

record correction =
  out_mask :: "real array2"
  out_refpix :: ramp
  out_lmf_before :: "flt array3"
  out_lmf_after :: "flt array3"

text \<open>
  The model of one frame: for \<^verbatim>\<open>'loom'\<close> the mask is first refined for the frame with
  \<open>cc_uniluminated_outliers\<close> (default \<open>nsigma = 5\<close>); \<^verbatim>\<open>'roeba'\<close> uses the mask as it is.
\<close>

definition frame_model ::
    "(real array2 \<Rightarrow> flt list \<Rightarrow> flt list) \<Rightarrow> preamp \<Rightarrow> real array2 \<Rightarrow> flt array2 \<Rightarrow> flt array2" where
  "frame_model lsmr method msk f =
     (case method of
        Loom \<Rightarrow> (let group_mask = cc_uniluminated_outliers f msk 5
                 in model_of (get_loom lsmr f group_mask False))
      | Roeba \<Rightarrow> get_roeba f msk)"

text \<open>\<^verbatim>\<open>refpix.data[i, j, :, :] -= model\<close>\<close>

definition subtract_frame :: "ramp \<Rightarrow> nat \<Rightarrow> nat \<Rightarrow> flt array2 \<Rightarrow> ramp" where
  "subtract_frame refpix i j m =
     refpix\<lparr>px := (\<lambda>i' g r c.
        if i' = i \<and> g = j then fsub (px refpix i j r c) (cell m r c) else px refpix i' g r c)\<rparr>"

text \<open>The loop over the groups of integration \<open>i\<close>.\<close>

definition correct_groups ::
    "(flt array2 \<Rightarrow> flt array2) \<Rightarrow> nat \<Rightarrow> ramp \<Rightarrow> ramp" where
  "correct_groups model i refpix =
     fold (\<lambda>j rp. subtract_frame rp i j (model (frame rp i j))) [0..<ngroups refpix] refpix"

text \<open>
  The loop over the integrations: all groups are corrected, then
  \<^verbatim>\<open>lmf_after[i, :, :] = refpix.data[i, max_group, :, :] - refpix.data[i, min_group, :, :]\<close>.
\<close>

fun correct_loop ::
    "(flt array2 \<Rightarrow> flt array2) \<Rightarrow> int \<Rightarrow> int \<Rightarrow> nat list \<Rightarrow> ramp \<times> flt array3
       \<Rightarrow> error + ramp \<times> flt array3" where
  "correct_loop model min_group max_group [] s = Inr s"
| "correct_loop model min_group max_group (i # is) s =
     (let refpix = correct_groups model i (fst s);
          lmf_after = snd s
      in case py_index (ngroups refpix) max_group of
           Inl e \<Rightarrow> Inl e
         | Inr gl \<Rightarrow>
            (case py_index (ngroups refpix) min_group of
               Inl e \<Rightarrow> Inl e
             | Inr gf \<Rightarrow>
                correct_loop model min_group max_group is
                  (refpix,
                   lmf_after\<lparr>cell3 := (\<lambda>k r c.
                      if k = i then fsub (px refpix i gl r c) (px refpix i gf r c)
                      else cell3 lmf_after k r c)\<rparr>)))"

definition stage1_preamp ::
    "(real array2 \<Rightarrow> flt list \<Rightarrow> flt list) \<Rightarrow> ramp \<Rightarrow> preamp \<Rightarrow> int option \<Rightarrow> int option
       \<Rightarrow> real array2 option \<Rightarrow> bool \<Rightarrow> ramp \<Rightarrow> error + correction" where
  "stage1_preamp lsmr superbias preamp_correction min_group_kw max_group_kw uniluminated_mask
       products_found loaded =
     (let nintegrations = nints superbias;
          min_group = (case min_group_kw of None \<Rightarrow> 0 | Some g \<Rightarrow> g);
          max_group = (case max_group_kw of None \<Rightarrow> int (ngroups superbias) - 1 | Some g \<Rightarrow> g)
      in case get_last_minus_first superbias (Some min_group) (Some max_group) of
           Inl e \<Rightarrow> Inl e
         | Inr (lmf, median_lmf) \<Rightarrow>
            (let msk = (case uniluminated_mask of
                          None \<Rightarrow> get_uniluminated_mask median_lmf 3
                        | Some m \<Rightarrow> m);
                 refpix = superbias;
                 lmf_after = lmf\<lparr>cell3 := (\<lambda>i r c. Some 0)\<rparr>
             in if \<not> products_found then
                  (case correct_loop (frame_model lsmr preamp_correction msk) min_group max_group
                          [0..<nintegrations] (refpix, lmf_after) of
                     Inl e \<Rightarrow> Inl e
                   | Inr (refpix, lmf_after) \<Rightarrow>
                       Inr \<lparr>out_mask = msk, out_refpix = refpix, out_lmf_before = lmf,
                            out_lmf_after = lmf_after\<rparr>)
                else
                  (case get_last_minus_first loaded (Some min_group) (Some max_group) of
                     Inl e \<Rightarrow> Inl e
                   | Inr (lmf_after, median_after) \<Rightarrow>
                       Inr \<lparr>out_mask = msk, out_refpix = loaded, out_lmf_before = lmf,
                            out_lmf_after = lmf_after\<rparr>)))"

text \<open>
  A ramp of one integration, two groups and 2 x 1 pixels: the first group is 0, the second
  group is 2.
\<close>

definition ramp21 :: ramp where
  "ramp21 = \<lparr>nints = 1, ngroups = 2, rrows = 2, rcols = 1,
     px = (\<lambda>i g r c. [Some 0, Some 2] ! g)\<rparr>"

section \<open>Properties\<close>

text \<open>
  Claim C3. For every frame, every congruent 0/1 mask and every \<open>nsigma\<close>, the mask
  returned by \<open>cc_uniluminated_outliers\<close> has the shape of the input, is again a 0/1
  mask, and is element-wise at most the input mask: a 0-entry stays 0, and an entry that
  changes was 1 and becomes 0.
\<close>

theorem cc_uniluminated_outliers_tightens:
  assumes "congruent data msk" and "is_mask msk"
  shows "congruent (cc_uniluminated_outliers data msk nsigma) msk
    \<and> is_mask (cc_uniluminated_outliers data msk nsigma)
    \<and> (\<forall>i<nrows msk. \<forall>j<ncols msk.
         cell (cc_uniluminated_outliers data msk nsigma) i j \<le> cell msk i j
       \<and> (cell msk i j = 0 \<longrightarrow> cell (cc_uniluminated_outliers data msk nsigma) i j = 0)
       \<and> (cell (cc_uniluminated_outliers data msk nsigma) i j \<noteq> cell msk i j
            \<longrightarrow> cell msk i j = 1 \<and> cell (cc_uniluminated_outliers data msk nsigma) i j = 0))"
proof -
  let ?out = "cc_uniluminated_outliers data msk nsigma"
  have shape: "nrows ?out = nrows msk" "ncols ?out = ncols msk"
    using assms(1) by (simp_all add: cc_uniluminated_outliers_def congruent_def Let_def)
  have out: "cell ?out i j = 0 \<or> cell ?out i j = cell msk i j" for i j
    by (simp add: cc_uniluminated_outliers_def Let_def)
  have bit: "cell msk i j = 0 \<or> cell msk i j = 1" if "i < nrows msk" "j < ncols msk" for i j
    using assms(2) that by (simp add: is_mask_def)
  have "congruent ?out msk"
    using shape by (simp add: congruent_def)
  moreover have "is_mask ?out"
    unfolding is_mask_def shape using out bit by metis
  moreover have "cell ?out i j \<le> cell msk i j
       \<and> (cell msk i j = 0 \<longrightarrow> cell ?out i j = 0)
       \<and> (cell ?out i j \<noteq> cell msk i j \<longrightarrow> cell msk i j = 1 \<and> cell ?out i j = 0)"
    if "i < nrows msk" "j < ncols msk" for i j
    using out [of i j] bit [OF that] by auto
  ultimately show ?thesis by blast
qed

theorem cc_uniluminated_outliers_tightens_witness:
  "cell (cc_uniluminated_outliers
      \<lparr>nrows = 3, ncols = 1, cell = (\<lambda>i j. [[Some 1], [Some 1], [Some 9]] ! i ! j)\<rparr>
      (ones 3 1) 5) 2 0 = 0
   \<and> cell (cc_uniluminated_outliers
      \<lparr>nrows = 3, ncols = 1, cell = (\<lambda>i j. [[Some 1], [Some 1], [Some 9]] ! i ! j)\<rparr>
      (ones 3 1) 5) 2 0 \<le> cell (ones 3 1) 2 0"
proof -
  let ?d = "\<lparr>nrows = 3, ncols = 1, cell = (\<lambda>i j. [[Some (1::real)], [Some 1], [Some 9]] ! i ! j)\<rparr>"
  have c: "congruent ?d (ones 3 1)" by (simp add: congruent_def ones_def)
  have m: "is_mask (ones 3 1)" by (simp add: is_mask_def ones_def)
  have v: "cell (cc_uniluminated_outliers ?d (ones 3 1) 5) 2 0 = 0"
    by (simp add: cc_uniluminated_outliers_def cc_column_medians_def cc_column_mads_def
        nanmedian_axis0_def nan_where_zero_def column_def nanmedian_def median_def ones_def
        fgt_def fabs_def fsub_def fmul_def upt_rec Let_def)
  from cc_uniluminated_outliers_tightens [OF c m, of 5] v show ?thesis
    by (simp add: ones_def)
qed

subsection \<open>Medians and index lists\<close>

lemma somes_filter:
  "[x. Some x \<leftarrow> map g idx] = map (\<lambda>p. the (g p)) (filter (\<lambda>p. g p \<noteq> None) idx)"
  by (induction idx) (auto split: option.splits)

lemma parity_rows:
  "k < 2 \<Longrightarrow> filter (\<lambda>i. i mod 2 = k) [0..<n] = map (\<lambda>i. 2 * i + k) [0..<(n - k + 1) div 2]"
proof (induction n)
  case 0
  then show ?case by simp
next
  case (Suc n)
  have k: "k = 0 \<or> k = 1" using Suc.prems by auto
  have h: "Suc (2 * m - Suc 0) div 2 = m" for m :: nat by (cases m) simp_all
  show ?case
  proof (cases "even n")
    case True
    then obtain m where m: "n = 2 * m" by (elim evenE)
    from k show ?thesis
    proof
      assume "k = 0"
      with Suc m show ?thesis by simp
    next
      assume "k = 1"
      with Suc m h show ?thesis by simp
    qed
  next
    case False
    then obtain m where m: "n = 2 * m + 1" by (elim oddE)
    from k show ?thesis
    proof
      assume "k = 0"
      with Suc m show ?thesis by simp
    next
      assume "k = 1"
      with Suc m h show ?thesis by simp
    qed
  qed
qed

lemma flat_rows_from:
  "k < 2 \<Longrightarrow> flat (rows_from k a) = map (\<lambda>(i, j). cell a i j) (parity_cells k a)"
  by (simp add: flat_def rows_from_def parity_cells_def parity_rows map_concat comp_def)

lemma column_cells_map: "column a j = map (\<lambda>(i, j). cell a i j) (column_cells a j)"
  by (simp add: column_def column_cells_def comp_def)

lemma nanmedian_kept:
  "nanmedian (map (\<lambda>(i, j). cell (nan_where_zero data msk) i j) idx) = median (kept data msk idx)"
proof -
  have "[x. Some x \<leftarrow> map (\<lambda>(i, j). cell (nan_where_zero data msk) i j) idx] = kept data msk idx"
    unfolding somes_filter kept_def
    by (induction idx) (auto simp: nan_where_zero_def split: if_splits)
  then show ?thesis by (simp add: nanmedian_def)
qed

lemma nan_where_zero_shape [simp]:
  "nrows (nan_where_zero data msk) = nrows data" "ncols (nan_where_zero data msk) = ncols data"
  by (simp_all add: nan_where_zero_def)

lemma parity_cells_shape: "nrows a = nrows b \<Longrightarrow> ncols a = ncols b \<Longrightarrow> parity_cells k a = parity_cells k b"
  by (simp add: parity_cells_def)

lemma column_cells_shape: "nrows a = nrows b \<Longrightarrow> column_cells a j = column_cells b j"
  by (simp add: column_cells_def)

lemma get_roeba_shape: "nrows (get_roeba data msk) = nrows data" "ncols (get_roeba data msk) = ncols data"
  by (simp_all add: get_roeba_def Let_def add_row_vector_def set_rows_from_def fzeros_def)

lemma get_roeba_cell:
  assumes "c < ncols data"
  shows "cell (get_roeba data msk) r c =
     fadd (median (kept data msk (parity_cells (r mod 2) data)))
          (median (kept data msk (column_cells data c)))"
proof -
  let ?n = "nan_where_zero data msk"
  have lev: "nanmedian (flat (rows_from k ?n)) = median (kept data msk (parity_cells k data))"
    if "k < 2" for k
    using that by (simp add: flat_rows_from nanmedian_kept parity_cells_shape [of ?n data])
  have col: "nanmedian_axis0 ?n ! c = median (kept data msk (column_cells data c))"
    using assms
    by (simp add: nanmedian_axis0_def column_cells_map nanmedian_kept column_cells_shape [of ?n data])
  have odd_r: "1 \<le> r \<and> even (r - 1)" if "odd r"
    using that by (cases r) simp_all
  have cellf: "cell (get_roeba data msk) r c =
      fadd (if even r then nanmedian (flat (rows_from 0 ?n)) else nanmedian (flat (rows_from 1 ?n)))
           (nanmedian_axis0 ?n ! c)"
    using odd_r
    by (auto simp: get_roeba_def Let_def add_row_vector_def set_rows_from_def fzeros_def)
  have l0: "nanmedian (flat (rows_from 0 ?n)) = median (kept data msk (parity_cells 0 data))"
    using lev [of 0] by simp
  have l1: "nanmedian (flat (rows_from 1 ?n)) = median (kept data msk (parity_cells 1 data))"
    using lev [of 1] by simp
  show ?thesis
  proof (cases "even r")
    case True
    then have "r mod 2 = 0" by presburger
    with True show ?thesis
      unfolding cellf l0 col by simp
  next
    case False
    then have "r mod 2 = 1" by presburger
    with False show ?thesis
      unfolding cellf l1 col by simp
  qed
qed

lemma median_defined:
  assumes "xs \<noteq> []"
  shows "median xs \<noteq> None"
proof -
  have "length (sort xs) \<noteq> 0" using assms by simp
  then have "median xs = (if odd (length (sort xs)) then Some (sort xs ! (length (sort xs) div 2))
     else Some ((sort xs ! (length (sort xs) div 2 - 1) + sort xs ! (length (sort xs) div 2)) / 2))"
    unfolding median_def Let_def by (simp only: if_False)
  then show ?thesis
    by (cases "odd (length (sort xs))") simp_all
qed

lemma kept_nonempty:
  assumes "(i, j) \<in> set idx" "cell msk i j \<noteq> 0" "cell data i j \<noteq> None"
  shows "kept data msk idx \<noteq> []"
proof -
  have "(i, j) \<in> set (filter (\<lambda>(i, j). cell msk i j \<noteq> 0 \<and> cell data i j \<noteq> None) idx)"
    using assms by simp
  then have "filter (\<lambda>(i, j). cell msk i j \<noteq> 0 \<and> cell data i j \<noteq> None) idx \<noteq> []"
    by (metis empty_iff list.set(1))
  then show ?thesis by (simp add: kept_def)
qed

lemma in_parity_cells: "i < nrows a \<Longrightarrow> j < ncols a \<Longrightarrow> (i, j) \<in> set (parity_cells (i mod 2) a)"
  by (auto simp: parity_cells_def)

lemma in_column_cells: "i < nrows a \<Longrightarrow> (i, j) \<in> set (column_cells a j)"
  by (auto simp: column_cells_def)

lemma frame22_hyps:
  "congruent frame22 (ones 2 2) \<and> is_mask (ones 2 2) \<and> real_valued frame22
        \<and> (\<exists>i<nrows frame22. \<exists>j<ncols frame22. odd i \<and> cell (ones 2 2) i j = 1)
        \<and> (\<exists>i<nrows frame22. \<exists>j<ncols frame22. even i \<and> cell (ones 2 2) i j = 1)
        \<and> (\<forall>j<ncols frame22. \<exists>i<nrows frame22. cell (ones 2 2) i j = 1)"
proof -
  have "real_valued frame22"
    by (simp add: real_valued_def frame22_def less_Suc_eq numeral_2_eq_2)
  moreover have "\<exists>i<nrows frame22. \<exists>j<ncols frame22. odd i \<and> cell (ones 2 2) i j = 1"
  proof -
    have "(1::nat) < nrows frame22 \<and> (0::nat) < ncols frame22 \<and> odd (1::nat) \<and> cell (ones 2 2) 1 0 = 1"
      by (simp add: frame22_def ones_def)
    then show ?thesis by blast
  qed
  moreover have "\<exists>i<nrows frame22. \<exists>j<ncols frame22. even i \<and> cell (ones 2 2) i j = 1"
  proof -
    have "(0::nat) < nrows frame22 \<and> (0::nat) < ncols frame22 \<and> even (0::nat) \<and> cell (ones 2 2) 0 0 = 1"
      by (simp add: frame22_def ones_def)
    then show ?thesis by blast
  qed
  moreover have "\<forall>j<ncols frame22. \<exists>i<nrows frame22. cell (ones 2 2) i j = 1"
  proof -
    have "(0::nat) < nrows frame22 \<and> cell (ones 2 2) 0 j = 1" for j
      by (simp add: frame22_def ones_def)
    then show ?thesis by blast
  qed
  ultimately show ?thesis
    by (simp add: congruent_def is_mask_def ones_def frame22_def)
qed

text \<open>
  Claim C2. The model of \<open>get_roeba\<close> has the shape of the frame, and for every frame and
  mask its value at \<open>(r, c)\<close> is the median of the kept pixels of the rows with the parity of
  \<open>r\<close> plus the median of the kept pixels of column \<open>c\<close> (all rows, ignoring parity; NaN when
  there is no kept pixel): rows of different parity differ by the two parity levels only.
  For a real-valued frame and a congruent 0/1 mask with a 1-entry on the odd rows, on the
  even rows and in each column, both medians are numbers and the model is their sum.
\<close>

theorem get_roeba_model:
  "congruent (get_roeba data msk) data
   \<and> (\<forall>r<nrows data. \<forall>c<ncols data.
        cell (get_roeba data msk) r c =
          fadd (median (kept data msk (parity_cells (r mod 2) data)))
               (median (kept data msk (column_cells data c))))
   \<and> (congruent data msk \<and> is_mask msk \<and> real_valued data
        \<and> (\<exists>i<nrows data. \<exists>j<ncols data. odd i \<and> cell msk i j = 1)
        \<and> (\<exists>i<nrows data. \<exists>j<ncols data. even i \<and> cell msk i j = 1)
        \<and> (\<forall>j<ncols data. \<exists>i<nrows data. cell msk i j = 1)
      \<longrightarrow> (\<forall>r<nrows data. \<forall>c<ncols data. \<exists>P Q.
             median (kept data msk (parity_cells (r mod 2) data)) = Some P
           \<and> median (kept data msk (column_cells data c)) = Some Q
           \<and> cell (get_roeba data msk) r c = Some (P + Q)))"
proof (intro conjI impI allI)
  show "congruent (get_roeba data msk) data"
    by (simp add: congruent_def get_roeba_shape)
next
  fix r c assume "r < nrows data" "c < ncols data"
  then show "cell (get_roeba data msk) r c =
          fadd (median (kept data msk (parity_cells (r mod 2) data)))
               (median (kept data msk (column_cells data c)))"
    by (simp add: get_roeba_cell)
next
  fix r c
  assume h: "congruent data msk \<and> is_mask msk \<and> real_valued data
        \<and> (\<exists>i<nrows data. \<exists>j<ncols data. odd i \<and> cell msk i j = 1)
        \<and> (\<exists>i<nrows data. \<exists>j<ncols data. even i \<and> cell msk i j = 1)
        \<and> (\<forall>j<ncols data. \<exists>i<nrows data. cell msk i j = 1)"
    and r: "r < nrows data" and c: "c < ncols data"
  have num: "cell data i j \<noteq> None" if "i < nrows data" "j < ncols data" for i j
    using h that by (simp add: real_valued_def)
  obtain io jo where o: "io < nrows data" "jo < ncols data" "odd io" "cell msk io jo = 1"
    using h by blast
  obtain ie je where e: "ie < nrows data" "je < ncols data" "even ie" "cell msk ie je = 1"
    using h by blast
  obtain ic where ic: "ic < nrows data" "cell msk ic c = 1"
    using h c by blast
  have "kept data msk (parity_cells (r mod 2) data) \<noteq> []"
  proof (cases "even r")
    case True
    then have "ie mod 2 = r mod 2" using e(3) by presburger
    then show ?thesis
      using kept_nonempty [OF in_parity_cells [OF e(1,2)], of msk data] e(4) num [OF e(1,2)]
      by simp
  next
    case False
    then have "io mod 2 = r mod 2" using o(3) by presburger
    then show ?thesis
      using kept_nonempty [OF in_parity_cells [OF o(1,2)], of msk data] o(4) num [OF o(1,2)]
      by simp
  qed
  then obtain P where P: "median (kept data msk (parity_cells (r mod 2) data)) = Some P"
    using median_defined by blast
  have "kept data msk (column_cells data c) \<noteq> []"
    using kept_nonempty [OF in_column_cells [OF ic(1)], of msk c data] ic(2) num [OF ic(1) c]
    by simp
  then obtain Q where Q: "median (kept data msk (column_cells data c)) = Some Q"
    using median_defined by blast
  have "cell (get_roeba data msk) r c = Some (P + Q)"
    using get_roeba_cell [OF c, of msk r] P Q by (simp add: fadd_def)
  with P Q show "\<exists>P Q.
             median (kept data msk (parity_cells (r mod 2) data)) = Some P
           \<and> median (kept data msk (column_cells data c)) = Some Q
           \<and> cell (get_roeba data msk) r c = Some (P + Q)"
    by blast
qed

theorem get_roeba_model_witness:
  "cell (get_roeba frame22 (ones 2 2)) 1 0 = Some (11 / 2)
   \<and> (\<exists>P Q. median (kept frame22 (ones 2 2) (parity_cells (1 mod 2) frame22)) = Some P
         \<and> median (kept frame22 (ones 2 2) (column_cells frame22 0)) = Some Q
         \<and> cell (get_roeba frame22 (ones 2 2)) 1 0 = Some (P + Q))"
proof -
  have v: "cell (get_roeba frame22 (ones 2 2)) 1 0 = Some (11 / 2)"
    by code_simp
  have b: "(1::nat) < nrows frame22" "(0::nat) < ncols frame22"
    by (simp_all add: frame22_def)
  from get_roeba_model [of frame22 "ones 2 2"] frame22_hyps b v show ?thesis
    by blast
qed

subsection \<open>The synthetic frame\<close>

lemma synthetic_levels:
  "nanmedian (flat (rows_from 0 (nan_where_zero synthetic (ones 10 6)))) = Some (9 / 2)
   \<and> nanmedian (flat (rows_from 1 (nan_where_zero synthetic (ones 10 6)))) = Some (15 / 2)
   \<and> nanmedian_axis0 (nan_where_zero synthetic (ones 10 6))
       = map Some [7 / 2, 9 / 2, 11 / 2, 13 / 2, 15 / 2, 17 / 2]"
  by code_simp

lemma synthetic_flat:
  "flat (get_roeba synthetic (ones 10 6)) = map (\<lambda>v. fadd v (Some 6)) (flat synthetic)"
  by code_simp

text \<open>
  Claim C9, as stated, fails: on the synthetic 10 x 6 frame under the all-ones mask the
  even-row and odd-row medians of \<open>get_roeba\<close> are not 2 and 5, the column medians are not
  the ramp, and the model at \<open>(0, 0)\<close> is 8 where the injected pattern is 2.
\<close>

theorem get_roeba_synthetic_counterexample:
  "nanmedian (flat (rows_from 0 (nan_where_zero synthetic (ones 10 6)))) \<noteq> Some 2
   \<and> nanmedian (flat (rows_from 1 (nan_where_zero synthetic (ones 10 6)))) \<noteq> Some 5
   \<and> nanmedian_axis0 (nan_where_zero synthetic (ones 10 6)) \<noteq> map Some [0, 1, 2, 3, 4, 5]
   \<and> cell synthetic 0 0 = Some 2
   \<and> cell (get_roeba synthetic (ones 10 6)) 0 0 = Some 8"
  by code_simp
text \<open>
  Claim C9, amended. On the synthetic frame the two parity levels are the medians over all
  pixels of the even and of the odd rows, column ramp included: 9/2 and 15/2, which differ
  by the injected odd-even offset 3; and the model is the injected pattern plus one
  constant for all pixels.
\<close>

theorem get_roeba_synthetic:
  "nanmedian (flat (rows_from 0 (nan_where_zero synthetic (ones 10 6)))) = Some (9 / 2)
   \<and> nanmedian (flat (rows_from 1 (nan_where_zero synthetic (ones 10 6)))) = Some (15 / 2)
   \<and> (\<exists>k. flat (get_roeba synthetic (ones 10 6)) = map (\<lambda>v. fadd v (Some k)) (flat synthetic))"
  using synthetic_levels synthetic_flat by blast

subsection \<open>The illumination mask\<close>

lemma mask_column_shape [simp]:
  "nrows (mask_column data nsigma cc i msk) = nrows msk"
  "ncols (mask_column data nsigma cc i msk) = ncols msk"
  by (simp_all add: mask_column_def Let_def)

lemma fold_mask_column_shape:
  "nrows (fold (mask_column data nsigma cc) js msk) = nrows msk
   \<and> ncols (fold (mask_column data nsigma cc) js msk) = ncols msk"
  by (induction js arbitrary: msk) simp_all

lemma fold_mask_column_cell:
  "cell (fold (mask_column data nsigma cc) js msk) r c =
     (if c \<in> set js \<and> fgt (cell data r c) (fadd (cc ! c) (fmul (Some nsigma) (column_sigma data cc c)))
      then 0 else cell msk r c)"
proof (induction js arbitrary: msk)
  case Nil
  then show ?case by simp
next
  case (Cons j js)
  have step: "cell (mask_column data nsigma cc j msk) r c =
     (if c = j \<and> fgt (cell data r c) (fadd (cc ! c) (fmul (Some nsigma) (column_sigma data cc c)))
      then 0 else cell msk r c)"
    by (auto simp: mask_column_def Let_def)
  show ?case
    using Cons.IH [of "mask_column data nsigma cc j msk"] step by auto
qed

lemma get_uniluminated_mask_shape:
  "nrows (get_uniluminated_mask data nsigma) = nrows data"
  "ncols (get_uniluminated_mask data nsigma) = ncols data"
  by (simp_all add: get_uniluminated_mask_def Let_def fold_mask_column_shape ones_def)

lemma get_uniluminated_mask_cell:
  assumes "c < ncols data"
  shows "cell (get_uniluminated_mask data nsigma) r c =
     (if fgt (cell data r c)
          (fadd (np_median (column data c))
                (fmul (Some nsigma) (column_sigma data (np_median_axis0 data) c)))
      then 0 else 1)"
  using assms
  by (simp add: get_uniluminated_mask_def Let_def fold_mask_column_cell ones_def np_median_axis0_def)

lemma median_nonempty:
  assumes "xs \<noteq> []"
  shows "median xs = Some (if odd (length xs) then sort xs ! (length xs div 2)
     else (sort xs ! (length xs div 2 - 1) + sort xs ! (length xs div 2)) / 2)"
proof -
  have "length (sort xs) \<noteq> 0" using assms by simp
  then have "median xs = (if odd (length (sort xs)) then Some (sort xs ! (length (sort xs) div 2))
     else Some ((sort xs ! (length (sort xs) div 2 - 1) + sort xs ! (length (sort xs) div 2)) / 2))"
    unfolding median_def Let_def by (simp only: if_False)
  then show ?thesis by simp
qed

lemma median_Nil [simp]: "median [] = None"
  by (simp add: median_def)

lemma median_Some_nonempty: "median xs = Some m \<Longrightarrow> xs \<noteq> []"
  by (cases xs) simp_all

lemma sort_nth_in_set: "i < length xs \<Longrightarrow> sort xs ! i \<in> set xs"
  by (metis length_sort nth_mem set_sort)

lemma median_nonneg:
  assumes "\<forall>x\<in>set xs. 0 \<le> x" "median xs = Some m"
  shows "0 \<le> m"
proof -
  have ne: "xs \<noteq> []" using assms(2) by (rule median_Some_nonempty)
  then have n: "0 < length xs" by simp
  have a: "0 \<le> sort xs ! (length xs div 2)"
    using assms(1) sort_nth_in_set [of "length xs div 2" xs] n by simp
  have b: "0 \<le> sort xs ! (length xs div 2 - 1)"
    using assms(1) sort_nth_in_set [of "length xs div 2 - 1" xs] n
    by (simp add: less_imp_diff_less)
  show ?thesis
    using assms(2) a b unfolding median_nonempty [OF ne]
    by (auto split: if_splits)
qed

lemma length_filter_mono:
  "(\<forall>x\<in>set xs. P x \<longrightarrow> Q x) \<Longrightarrow> length (filter P xs) \<le> length (filter Q xs)"
  by (induction xs) auto

lemma length_filter_prefix:
  assumes "k \<le> length s" "\<forall>i<k. P (s ! i)"
  shows "k \<le> length (filter P s)"
proof -
  have "\<forall>x\<in>set (take k s). P x"
    using assms by (auto simp: in_set_conv_nth)
  then have "filter P (take k s) = take k s" by simp
  then have "length (filter P (take k s)) = k" using assms(1) by simp
  moreover have "filter P s = filter P (take k s) @ filter P (drop k s)"
    by (metis append_take_drop_id filter_append)
  ultimately show ?thesis by simp
qed

lemma median_count:
  assumes "median xs = Some m"
  shows "(length xs + 1) div 2 \<le> length (filter (\<lambda>x. x \<le> m) xs)"
proof -
  let ?s = "sort xs" and ?n = "length xs"
  have ne: "xs \<noteq> []" using assms by (rule median_Some_nonempty)
  then have n: "0 < ?n" by simp
  have srt: "sorted ?s" by simp
  have low: "?s ! i \<le> m" if "i < (?n + 1) div 2" for i
  proof (cases "odd ?n")
    case True
    then have m: "m = ?s ! (?n div 2)" using assms median_nonempty [OF ne] by simp
    from True obtain q where q: "?n = 2 * q + 1" by (elim oddE)
    have "i \<le> ?n div 2" "?n div 2 < length ?s" using that q by simp_all
    then show ?thesis unfolding m using srt by (simp add: sorted_nth_mono)
  next
    case False
    then have m: "m = (?s ! (?n div 2 - 1) + ?s ! (?n div 2)) / 2"
      using assms median_nonempty [OF ne] by simp
    from False have "even ?n" by simp
    then obtain q where q: "?n = 2 * q" by (elim evenE)
    have q0: "0 < q" using n q by simp
    have i: "i \<le> q - 1" using that q q0 by simp
    have "?s ! i \<le> ?s ! (q - 1)"
      using srt i q q0 by (intro sorted_nth_mono) simp_all
    moreover have "?s ! (q - 1) \<le> ?s ! q"
      using srt q q0 by (intro sorted_nth_mono) simp_all
    ultimately show ?thesis unfolding m using q by simp
  qed
  have "(?n + 1) div 2 \<le> length (filter (\<lambda>x. x \<le> m) ?s)"
    using low by (intro length_filter_prefix) simp_all
  also have "filter (\<lambda>x. x \<le> m) ?s = sort (filter (\<lambda>x. x \<le> m) xs)"
    by (rule filter_sort)
  finally show ?thesis by simp
qed

lemma somes_map_Some: "[x. Some x \<leftarrow> map Some xs] = xs"
  by (induction xs) simp_all

lemma nanmedian_map_Some: "nanmedian (map Some xs) = median xs"
  unfolding nanmedian_def somes_map_Some ..

lemma np_median_map_Some: "np_median (map Some xs) = median xs"
  by (auto simp: np_median_def comp_def)

lemma np_median_Some:
  assumes "np_median l = Some m"
  shows "l = map Some (map the l) \<and> median (map the l) = Some m"
proof -
  have n: "None \<notin> set l" using assms by (auto simp: np_median_def split: if_splits)
  then have "map (\<lambda>x. Some (the x)) l = l"
    by (intro map_idI) (metis option.collapse)
  then show ?thesis using assms n by (simp add: np_median_def comp_def)
qed

lemma column_real_valued:
  assumes "real_valued data" "c < ncols data"
  shows "column data c = map Some (column_values data c)"
proof -
  have "Some (the (cell data i c)) = cell data i c" if "i < nrows data" for i
    using assms that by (simp add: real_valued_def)
  then show ?thesis
    by (simp add: column_def column_values_def)
qed

lemma length_column [simp]: "length (column a j) = nrows a"
  by (simp add: column_def)

lemma length_column_values [simp]: "length (column_values a j) = nrows a"
  by (simp add: column_values_def)

lemma np_median_axis0_nth: "c < ncols data \<Longrightarrow> np_median_axis0 data ! c = np_median (column data c)"
  by (simp add: np_median_axis0_def)

lemma column_sigma_map_Some:
  assumes "column data c = map Some xs" "cc ! c = Some m"
  shows "column_sigma data cc c = fmul (mad_of (map (\<lambda>x. x - m) xs)) (Some (14826 / 10000))"
proof -
  let ?res = "map (\<lambda>x. x - m) xs"
  have res: "map (\<lambda>x. fsub x (cc ! c)) (column data c) = map Some ?res"
    by (simp add: assms fsub_def)
  have "nanmedian (map (\<lambda>x. fabs (fsub x (nanmedian (map Some ?res)))) (map Some ?res)) = mad_of ?res"
  proof (cases "median ?res")
    case None
    then have "xs = []" using median_defined [of ?res] by auto
    then show ?thesis by (simp add: mad_of_def nanmedian_def)
  next
    case (Some m')
    have nm: "nanmedian (map Some ?res) = Some m'"
      using Some by (simp only: nanmedian_map_Some)
    have eq: "map (\<lambda>x. fabs (fsub x (nanmedian (map Some ?res)))) (map Some ?res)
        = map Some (map (\<lambda>y. \<bar>y - m'\<bar>) ?res)"
      unfolding nm by (simp add: fabs_def fsub_def)
    have "nanmedian (map (\<lambda>x. fabs (fsub x (nanmedian (map Some ?res)))) (map Some ?res))
        = nanmedian (map Some (map (\<lambda>y. \<bar>y - m'\<bar>) ?res))"
      using eq by (rule arg_cong)
    also have "\<dots> = median (map (\<lambda>y. \<bar>y - m'\<bar>) ?res)"
      by (rule nanmedian_map_Some)
    also have "\<dots> = mad_of ?res"
      unfolding mad_of_def Some by simp
    finally show ?thesis .
  qed
  then show ?thesis
    by (simp add: column_sigma_def Let_def res)
qed

lemma mad_of_defined: "xs \<noteq> [] \<Longrightarrow> mad_of xs \<noteq> None"
  using median_defined [of xs] median_defined [of "map (\<lambda>x. \<bar>x - m\<bar>) xs" for m]
  by (auto simp: mad_of_def split: option.splits)

lemma somes_fabs_nonneg: "\<forall>x\<in>set [x. Some x \<leftarrow> map (\<lambda>v. fabs (f v)) l]. 0 \<le> x"
  by (induction l) (auto simp: fabs_def split: option.splits)

lemma column_sigma_nonneg:
  assumes "column_sigma data cc c = Some s"
  shows "0 \<le> s"
proof -
  let ?l = "map (\<lambda>x. fsub x (cc ! c)) (column data c)"
  obtain d where d: "nanmedian (map (\<lambda>x. fabs (fsub x (nanmedian ?l))) ?l) = Some d"
    and s: "s = d * (14826 / 10000)"
    using assms by (auto simp: column_sigma_def Let_def fmul_def split: option.splits)
  have "0 \<le> d"
    using d somes_fabs_nonneg [of "\<lambda>x. fsub x (nanmedian ?l)" ?l]
    unfolding nanmedian_def by (rule median_nonneg [rotated])
  then show ?thesis using s by simp
qed

text \<open>
  Claim C5. The mask of \<open>get_uniluminated_mask\<close> has the shape of the frame, and a pixel is
  set to 0 exactly when its value is strictly greater than the median of its column plus
  \<open>nsigma\<close> times the column's \<open>sigma\<close>, and to 1 otherwise (a comparison with NaN is false).
  For a real-valued frame, \<open>sigma\<close> is 1.4826 times the MAD of the residuals of the column
  about its median, and the test is \<open>x > m + nsigma * (1.4826 * d)\<close>.
\<close>

theorem get_uniluminated_mask_rule:
  "congruent (get_uniluminated_mask data nsigma) data
   \<and> (\<forall>r<nrows data. \<forall>c<ncols data.
        cell (get_uniluminated_mask data nsigma) r c =
          (if fgt (cell data r c)
                  (fadd (np_median (column data c))
                        (fmul (Some nsigma) (column_sigma data (np_median_axis0 data) c)))
           then 0 else 1))
   \<and> (real_valued data \<longrightarrow> (\<forall>r<nrows data. \<forall>c<ncols data. \<exists>x m d.
          cell data r c = Some x
        \<and> median (column_values data c) = Some m
        \<and> mad_of (map (\<lambda>v. v - m) (column_values data c)) = Some d
        \<and> cell (get_uniluminated_mask data nsigma) r c =
            (if x > m + nsigma * (d * (14826 / 10000)) then 0 else 1)))"
proof (intro conjI impI allI)
  show "congruent (get_uniluminated_mask data nsigma) data"
    by (simp add: congruent_def get_uniluminated_mask_shape)
next
  fix r c assume "r < nrows data" "c < ncols data"
  then show "cell (get_uniluminated_mask data nsigma) r c =
          (if fgt (cell data r c)
                  (fadd (np_median (column data c))
                        (fmul (Some nsigma) (column_sigma data (np_median_axis0 data) c)))
           then 0 else 1)"
    by (simp add: get_uniluminated_mask_cell)
next
  fix r c assume rv: "real_valued data" and r: "r < nrows data" and c: "c < ncols data"
  let ?xs = "column_values data c"
  have col: "column data c = map Some ?xs" using rv c by (rule column_real_valued)
  have ne: "?xs \<noteq> []" using r by (metis length_column_values less_nat_zero_code list.size(3))
  obtain x where x: "cell data r c = Some x"
    using rv r c by (auto simp: real_valued_def)
  obtain m where m: "median ?xs = Some m" using median_defined [OF ne] by auto
  have "map (\<lambda>v. v - m) ?xs \<noteq> []" using ne by simp
  then obtain d where d: "mad_of (map (\<lambda>v. v - m) ?xs) = Some d"
    using mad_of_defined by blast
  have cc: "np_median (column data c) = Some m"
    using m by (simp add: col np_median_map_Some)
  then have "np_median_axis0 data ! c = Some m" using c by (simp add: np_median_axis0_nth)
  then have sg: "column_sigma data (np_median_axis0 data) c = Some (d * (14826 / 10000))"
    using column_sigma_map_Some [OF col] d by (simp add: fmul_def)
  have "cell (get_uniluminated_mask data nsigma) r c =
            (if x > m + nsigma * (d * (14826 / 10000)) then 0 else 1)"
    using get_uniluminated_mask_cell [OF c, of nsigma r] x cc sg
    by (simp add: fgt_def fadd_def fmul_def)
  with x m d show "\<exists>x m d.
          cell data r c = Some x
        \<and> median (column_values data c) = Some m
        \<and> mad_of (map (\<lambda>v. v - m) (column_values data c)) = Some d
        \<and> cell (get_uniluminated_mask data nsigma) r c =
            (if x > m + nsigma * (d * (14826 / 10000)) then 0 else 1)"
    by blast
qed

lemma mask_one_below_median:
  assumes "0 \<le> nsigma" "c < ncols data"
    and "np_median (column data c) = Some m" "cell data r c = Some x" "x \<le> m"
  shows "cell (get_uniluminated_mask data nsigma) r c = 1"
proof -
  let ?sg = "column_sigma data (np_median_axis0 data) c"
  have "\<not> fgt (Some x) (fadd (Some m) (fmul (Some nsigma) ?sg))"
  proof (cases ?sg)
    case None
    then show ?thesis by (simp add: fgt_def fadd_def fmul_def)
  next
    case (Some s)
    then have "0 \<le> s" by (rule column_sigma_nonneg)
    then have "0 \<le> nsigma * s" using assms(1) by simp
    then show ?thesis using assms(5) Some by (simp add: fgt_def fadd_def fmul_def)
  qed
  then show ?thesis
    using get_uniluminated_mask_cell [OF assms(2), of nsigma r] assms(3,4) by simp
qed

lemma mask_one_nan_median:
  assumes "c < ncols data" "np_median (column data c) = None"
  shows "cell (get_uniluminated_mask data nsigma) r c = 1"
  using get_uniluminated_mask_cell [OF assms(1), of nsigma r] assms(2)
  by (simp add: fgt_def fadd_def split: option.splits)

lemma mask_column_count:
  assumes "0 \<le> nsigma" "c < ncols data"
  shows "(nrows data + 1) div 2
     \<le> length (filter (\<lambda>r. cell (get_uniluminated_mask data nsigma) r c = 1) [0..<nrows data])"
proof (cases "np_median (column data c)")
  case None
  then have "filter (\<lambda>r. cell (get_uniluminated_mask data nsigma) r c = 1) [0..<nrows data]
      = [0..<nrows data]"
    using mask_one_nan_median [OF assms(2)] by simp
  then show ?thesis by simp
next
  case (Some m)
  let ?f = "\<lambda>i. the (cell data i c)"
  from np_median_Some [OF Some]
  have col: "column data c = map Some (map the (column data c))"
    and med: "median (map the (column data c)) = Some m" by simp_all
  have xs: "map the (column data c) = map ?f [0..<nrows data]"
    by (simp add: column_def)
  have num: "cell data i c = Some (?f i)" if "i < nrows data" for i
  proof -
    have "column data c ! i = map Some (map the (column data c)) ! i" using col by simp
    then show ?thesis using that by (simp add: column_def)
  qed
  have "(nrows data + 1) div 2 \<le> length (filter (\<lambda>x. x \<le> m) (map ?f [0..<nrows data]))"
    using median_count [OF med] by (simp add: xs)
  also have "\<dots> = length (filter (\<lambda>i. ?f i \<le> m) [0..<nrows data])"
    by (simp add: filter_map comp_def)
  also have "\<dots> \<le> length (filter (\<lambda>r. cell (get_uniluminated_mask data nsigma) r c = 1)
       [0..<nrows data])"
  proof (rule length_filter_mono, intro ballI impI)
    fix i assume "i \<in> set [0..<nrows data]" "?f i \<le> m"
    then show "cell (get_uniluminated_mask data nsigma) i c = 1"
      using mask_one_below_median [OF assms Some num] by simp
  qed
  finally show ?thesis .
qed

text \<open>
  Claim C10. For \<open>nsigma \<ge> 0\<close>, every pixel at or below the median of its column keeps
  the value 1 in the mask of \<open>get_uniluminated_mask\<close>; every column of the mask has at
  least \<open>\<lceil>rows / 2\<rceil>\<close> entries equal to 1, hence at least one when the frame has a row.
\<close>

theorem get_uniluminated_mask_keeps_low:
  assumes "0 \<le> nsigma" and "c < ncols data"
  shows "(\<forall>r<nrows data. \<forall>x m. cell data r c = Some x \<and> np_median (column data c) = Some m
            \<and> x \<le> m \<longrightarrow> cell (get_uniluminated_mask data nsigma) r c = 1)
    \<and> (nrows data + 1) div 2
         \<le> length (filter (\<lambda>r. cell (get_uniluminated_mask data nsigma) r c = 1) [0..<nrows data])
    \<and> (0 < nrows data \<longrightarrow> (\<exists>r<nrows data. cell (get_uniluminated_mask data nsigma) r c = 1))"
proof (intro conjI impI allI)
  fix r x m
  assume "r < nrows data"
    "cell data r c = Some x \<and> np_median (column data c) = Some m \<and> x \<le> m"
  then show "cell (get_uniluminated_mask data nsigma) r c = 1"
    using mask_one_below_median [OF assms] by blast
next
  show "(nrows data + 1) div 2
     \<le> length (filter (\<lambda>r. cell (get_uniluminated_mask data nsigma) r c = 1) [0..<nrows data])"
    using assms by (rule mask_column_count)
next
  assume "0 < nrows data"
  then have "0 < (nrows data + 1) div 2" by simp
  then have "filter (\<lambda>r. cell (get_uniluminated_mask data nsigma) r c = 1) [0..<nrows data] \<noteq> []"
    using mask_column_count [OF assms] by auto
  then obtain r where "r \<in> set (filter (\<lambda>r. cell (get_uniluminated_mask data nsigma) r c = 1)
      [0..<nrows data])"
    by (meson last_in_set)
  then show "\<exists>r<nrows data. cell (get_uniluminated_mask data nsigma) r c = 1"
    by auto
qed

lemma frame51_mask: "map (\<lambda>i. cell (get_uniluminated_mask frame51 3) i 0) [0..<5] = [1, 1, 0, 1, 1]"
  by code_simp

lemma frame51_real_valued: "real_valued frame51"
  by (simp add: real_valued_def frame51_def less_Suc_eq numeral_nat)

theorem get_uniluminated_mask_rule_witness:
  "real_valued frame51
   \<and> cell (get_uniluminated_mask frame51 3) 2 0 = 0
   \<and> (\<exists>x m d. cell frame51 2 0 = Some x
        \<and> median (column_values frame51 0) = Some m
        \<and> mad_of (map (\<lambda>v. v - m) (column_values frame51 0)) = Some d
        \<and> cell (get_uniluminated_mask frame51 3) 2 0 =
            (if x > m + 3 * (d * (14826 / 10000)) then 0 else 1))"
proof -
  have b: "(2::nat) < nrows frame51" "(0::nat) < ncols frame51"
    by (simp_all add: frame51_def)
  have v: "cell (get_uniluminated_mask frame51 3) 2 0 = 0"
    by code_simp
  from get_uniluminated_mask_rule [of frame51 3] frame51_real_valued b v show ?thesis
    by blast
qed

theorem get_uniluminated_mask_keeps_low_witness:
  "(0::real) \<le> 3 \<and> (0::nat) < ncols frame51
   \<and> cell frame51 1 0 = Some 2 \<and> np_median (column frame51 0) = Some 2
   \<and> cell (get_uniluminated_mask frame51 3) 1 0 = 1
   \<and> (nrows frame51 + 1) div 2
        \<le> length (filter (\<lambda>r. cell (get_uniluminated_mask frame51 3) r 0 = 1) [0..<nrows frame51])"
proof -
  have n: "(0::real) \<le> 3" by simp
  have c: "(0::nat) < ncols frame51" by (simp add: frame51_def)
  have r: "(1::nat) < nrows frame51" by (simp add: frame51_def)
  have x: "cell frame51 1 0 = Some 2" by (simp add: frame51_def)
  have m: "np_median (column frame51 0) = Some 2" by code_simp
  from get_uniluminated_mask_keeps_low [OF n c] r x m show ?thesis
    using n c by auto
qed

subsection \<open>The last-minus-first slope\<close>

lemma py_index_in_range: "0 \<le> g \<Longrightarrow> g < int n \<Longrightarrow> py_index n g = Inr (nat g)"
  by (simp add: py_index_def)

lemma py_index_error: "g < - int n \<or> int n \<le> g \<Longrightarrow> py_index n g = Inl IndexError"
  by (auto simp: py_index_def)

lemma py_index_ok: "- int n \<le> g \<Longrightarrow> g < int n \<Longrightarrow> \<exists>k<n. py_index n g = Inr k"
  by (auto simp: py_index_def)

lemma lmf_loop_error:
  assumes "py_index (ngroups data) mx = Inl e \<or> py_index (ngroups data) mn = Inl e" "is \<noteq> []"
  shows "lmf_loop data mn mx is lmf = Inl IndexError"
proof -
  obtain i js where "is = i # js" using assms(2) by (cases "is") auto
  have one: "x = IndexError" for x :: error by (cases x) simp
  from \<open>is = i # js\<close> show ?thesis
    using assms(1) one by (auto split: sum.splits)
qed

lemma lmf_loop_ok:
  assumes "py_index (ngroups data) mx = Inr gl" "py_index (ngroups data) mn = Inr gf"
  shows "\<exists>out. lmf_loop data mn mx is lmf = Inr out
     \<and> len3 out = len3 lmf \<and> rows3 out = rows3 lmf \<and> cols3 out = cols3 lmf
     \<and> (\<forall>k r c. cell3 out k r c = (if k \<in> set is then slope data gf gl k r c else cell3 lmf k r c))"
proof (induction "is" arbitrary: lmf)
  case Nil
  then show ?case by simp
next
  case (Cons i js)
  let ?lmf' = "lmf\<lparr>cell3 := (\<lambda>k r c.
       if k = i then fsub (cell (sub_scalar (frame data i gl) (nanmedian (flat (frame data i gl)))) r c)
                          (cell (sub_scalar (frame data i gf) (nanmedian (flat (frame data i gf)))) r c)
       else cell3 lmf k r c)\<rparr>"
  have step: "lmf_loop data mn mx (i # js) lmf = lmf_loop data mn mx js ?lmf'"
    using assms by (simp add: Let_def)
  have c: "cell3 ?lmf' k r c = (if k = i then slope data gf gl k r c else cell3 lmf k r c)" for k r c
    by (simp add: slope_def sub_scalar_def frame_def)
  from Cons.IH [of ?lmf'] obtain out where out: "lmf_loop data mn mx js ?lmf' = Inr out"
     "len3 out = len3 ?lmf'" "rows3 out = rows3 ?lmf'" "cols3 out = cols3 ?lmf'"
     "\<forall>k r c. cell3 out k r c = (if k \<in> set js then slope data gf gl k r c else cell3 ?lmf' k r c)"
    by blast
  have "\<forall>k r c. cell3 out k r c = (if k \<in> set (i # js) then slope data gf gl k r c else cell3 lmf k r c)"
    using out(5) c by auto
  with out(1-4) step show ?case by simp
qed

lemma nanmedian_defined:
  assumes "Some x \<in> set l"
  shows "nanmedian l \<noteq> None"
proof -
  have "x \<in> set [x. Some x \<leftarrow> l]" using assms by auto
  then have "[x. Some x \<leftarrow> l] \<noteq> []" by (metis empty_iff list.set(1))
  then show ?thesis unfolding nanmedian_def by (rule median_defined)
qed

lemma cell_in_flat: "r < nrows a \<Longrightarrow> c < ncols a \<Longrightarrow> cell a r c \<in> set (flat a)"
  unfolding flat_def set_concat set_map set_upt
  by (intro UN_I [of "map (cell a r) [0..<ncols a]"]) auto

lemma slope_same_group:
  assumes "px data i g r c \<noteq> None" "r < rrows data" "c < rcols data"
  shows "slope data g g i r c = Some 0"
proof -
  obtain x where x: "px data i g r c = Some x" using assms(1) by auto
  have "Some x \<in> set (flat (frame data i g))"
    using cell_in_flat [of r "frame data i g" c] assms(2,3) x by (simp add: frame_def)
  then obtain m where "nanmedian (flat (frame data i g)) = Some m"
    using nanmedian_defined by fastforce
  then show ?thesis using x by (simp add: slope_def fsub_def)
qed

lemma get_last_minus_first_ok:
  assumes "py_index (ngroups data) (group_or (int (ngroups data) - 1) max_group) = Inr gl"
    and "py_index (ngroups data) (group_or 0 min_group) = Inr gf"
  shows "\<exists>lmf median_lmf. get_last_minus_first data min_group max_group = Inr (lmf, median_lmf)
     \<and> len3 lmf = nints data \<and> rows3 lmf = rrows data \<and> cols3 lmf = rcols data
     \<and> nrows median_lmf = rrows data \<and> ncols median_lmf = rcols data
     \<and> (\<forall>i<nints data. \<forall>r c. cell3 lmf i r c = slope data gf gl i r c)
     \<and> (\<forall>r c. cell median_lmf r c = nanmedian (map (\<lambda>i. cell3 lmf i r c) [0..<nints data]))"
proof -
  let ?z = "\<lparr>len3 = nints data, rows3 = rrows data, cols3 = rcols data,
                 cell3 = (\<lambda>i r c. Some (0::real))\<rparr>"
  from lmf_loop_ok [OF assms, of "[0..<nints data]" ?z]
  obtain out where out: "lmf_loop data (group_or 0 min_group)
        (group_or (int (ngroups data) - 1) max_group) [0..<nints data] ?z = Inr out"
     "len3 out = nints data" "rows3 out = rrows data" "cols3 out = rcols data"
     "\<forall>k r c. cell3 out k r c = (if k \<in> set [0..<nints data] then slope data gf gl k r c
         else cell3 ?z k r c)"
    by auto
  have res: "get_last_minus_first data min_group max_group = Inr (out, nanmedian3_axis0 out)"
    using out(1) by (simp add: get_last_minus_first_def Let_def group_or_def)
  have "\<forall>i<nints data. \<forall>r c. cell3 out i r c = slope data gf gl i r c"
    using out(5) by simp
  then show ?thesis
    using res out(2-4) by (simp add: nanmedian3_axis0_def)
qed

lemma get_last_minus_first_raises:
  assumes "0 < nints data"
    and "py_index (ngroups data) (group_or (int (ngroups data) - 1) max_group) = Inl e
       \<or> py_index (ngroups data) (group_or 0 min_group) = Inl e"
  shows "get_last_minus_first data min_group max_group = Inl IndexError"
proof -
  have "[0..<nints data] \<noteq> []" using assms(1) by simp
  from lmf_loop_error [OF assms(2) this]
  show ?thesis by (simp add: get_last_minus_first_def Let_def group_or_def)
qed

text \<open>
  Claim C4. With group indices \<open>0 \<le> min_group \<le> max_group < ngroups\<close> (0 and
  \<open>ngroups - 1\<close> when omitted), \<open>get_last_minus_first\<close> returns, for each integration, the
  group \<open>max_group\<close> minus its own median minus the group \<open>min_group\<close> minus its own median
  (each median over all pixels of that group of that integration), and as second output
  the pixel-wise median of these slopes over the integrations. With
  \<open>min_group = max_group\<close> the slope is 0 at every pixel that is a number.
\<close>

theorem get_last_minus_first_slope:
  assumes "0 \<le> group_or 0 min_group"
    and "group_or 0 min_group \<le> group_or (int (ngroups data) - 1) max_group"
    and "group_or (int (ngroups data) - 1) max_group < int (ngroups data)"
  shows "\<exists>lmf median_lmf. get_last_minus_first data min_group max_group = Inr (lmf, median_lmf)
     \<and> len3 lmf = nints data \<and> rows3 lmf = rrows data \<and> cols3 lmf = rcols data
     \<and> nrows median_lmf = rrows data \<and> ncols median_lmf = rcols data
     \<and> (\<forall>i<nints data. \<forall>r<rrows data. \<forall>c<rcols data.
          cell3 lmf i r c = slope data (nat (group_or 0 min_group))
             (nat (group_or (int (ngroups data) - 1) max_group)) i r c
        \<and> (group_or 0 min_group = group_or (int (ngroups data) - 1) max_group
             \<and> px data i (nat (group_or 0 min_group)) r c \<noteq> None
           \<longrightarrow> cell3 lmf i r c = Some 0))
     \<and> (\<forall>r<rrows data. \<forall>c<rcols data.
          cell median_lmf r c = nanmedian (map (\<lambda>i. cell3 lmf i r c) [0..<nints data]))"
proof -
  let ?mn = "group_or 0 min_group" and ?mx = "group_or (int (ngroups data) - 1) max_group"
  have gl: "py_index (ngroups data) ?mx = Inr (nat ?mx)"
    using assms by (intro py_index_in_range) simp_all
  have gf: "py_index (ngroups data) ?mn = Inr (nat ?mn)"
    using assms by (intro py_index_in_range) simp_all
  from get_last_minus_first_ok [OF gl gf]
  obtain lmf median_lmf where res:
    "get_last_minus_first data min_group max_group = Inr (lmf, median_lmf)"
    "len3 lmf = nints data" "rows3 lmf = rrows data" "cols3 lmf = rcols data"
    "nrows median_lmf = rrows data" "ncols median_lmf = rcols data"
    "\<forall>i<nints data. \<forall>r c. cell3 lmf i r c = slope data (nat ?mn) (nat ?mx) i r c"
    "\<forall>r c. cell median_lmf r c = nanmedian (map (\<lambda>i. cell3 lmf i r c) [0..<nints data])"
    by blast
  have zero: "cell3 lmf i r c = Some 0"
    if "i < nints data" "r < rrows data" "c < rcols data" "?mn = ?mx"
       "px data i (nat ?mn) r c \<noteq> None" for i r c
    using res(7) that slope_same_group [of data i "nat ?mn" r c] by simp
  have main: "\<forall>i<nints data. \<forall>r<rrows data. \<forall>c<rcols data.
          cell3 lmf i r c = slope data (nat ?mn) (nat ?mx) i r c
        \<and> (?mn = ?mx \<and> px data i (nat ?mn) r c \<noteq> None \<longrightarrow> cell3 lmf i r c = Some 0)"
    using res(7) zero by blast
  have med: "\<forall>r<rrows data. \<forall>c<rcols data.
          cell median_lmf r c = nanmedian (map (\<lambda>i. cell3 lmf i r c) [0..<nints data])"
    using res(8) by blast
  from res(1-6) main med show ?thesis by blast
qed

text \<open>
  Claim C7, amended. On a ramp with at least one integration, a group index outside
  \<open>-ngroups \<le> g < ngroups\<close> makes \<open>get_last_minus_first\<close> raise \<^verbatim>\<open>IndexError\<close>. With both
  indices in that range (negative ones count from the end) it returns the slope of group
  \<open>max_group\<close> minus group \<open>min_group\<close>, also when \<open>min_group > max_group\<close>; and on a ramp
  without integrations it returns whatever the indices are.
\<close>

theorem get_last_minus_first_errors:
  "(0 < nints data
      \<and> (group_or 0 min_group < - int (ngroups data) \<or> int (ngroups data) \<le> group_or 0 min_group
         \<or> group_or (int (ngroups data) - 1) max_group < - int (ngroups data)
         \<or> int (ngroups data) \<le> group_or (int (ngroups data) - 1) max_group)
     \<longrightarrow> get_last_minus_first data min_group max_group = Inl IndexError)
   \<and> (- int (ngroups data) \<le> group_or 0 min_group \<and> group_or 0 min_group < int (ngroups data)
      \<and> - int (ngroups data) \<le> group_or (int (ngroups data) - 1) max_group
      \<and> group_or (int (ngroups data) - 1) max_group < int (ngroups data)
     \<longrightarrow> (\<exists>gf gl lmf median_lmf.
           py_index (ngroups data) (group_or 0 min_group) = Inr gf
         \<and> py_index (ngroups data) (group_or (int (ngroups data) - 1) max_group) = Inr gl
         \<and> get_last_minus_first data min_group max_group = Inr (lmf, median_lmf)
         \<and> (\<forall>i<nints data. \<forall>r c. cell3 lmf i r c = slope data gf gl i r c)))
   \<and> (nints data = 0 \<longrightarrow> (\<exists>res. get_last_minus_first data min_group max_group = Inr res))"
proof (intro conjI impI)
  let ?mn = "group_or 0 min_group" and ?mx = "group_or (int (ngroups data) - 1) max_group"
  assume h: "0 < nints data
      \<and> (?mn < - int (ngroups data) \<or> int (ngroups data) \<le> ?mn
         \<or> ?mx < - int (ngroups data) \<or> int (ngroups data) \<le> ?mx)"
  then have "py_index (ngroups data) ?mx = Inl IndexError \<or> py_index (ngroups data) ?mn = Inl IndexError"
    using py_index_error [of ?mn "ngroups data"] py_index_error [of ?mx "ngroups data"] by blast
  with h show "get_last_minus_first data min_group max_group = Inl IndexError"
    by (intro get_last_minus_first_raises) simp_all
next
  let ?mn = "group_or 0 min_group" and ?mx = "group_or (int (ngroups data) - 1) max_group"
  assume h: "- int (ngroups data) \<le> ?mn \<and> ?mn < int (ngroups data)
      \<and> - int (ngroups data) \<le> ?mx \<and> ?mx < int (ngroups data)"
  obtain gf where gf: "py_index (ngroups data) ?mn = Inr gf"
    using py_index_ok [of "ngroups data" ?mn] h by blast
  obtain gl where gl: "py_index (ngroups data) ?mx = Inr gl"
    using py_index_ok [of "ngroups data" ?mx] h by blast
  from get_last_minus_first_ok [OF gl gf] gf gl
  show "\<exists>gf gl lmf median_lmf.
           py_index (ngroups data) ?mn = Inr gf
         \<and> py_index (ngroups data) ?mx = Inr gl
         \<and> get_last_minus_first data min_group max_group = Inr (lmf, median_lmf)
         \<and> (\<forall>i<nints data. \<forall>r c. cell3 lmf i r c = slope data gf gl i r c)"
    by blast
next
  assume "nints data = 0"
  then show "\<exists>res. get_last_minus_first data min_group max_group = Inr res"
    by (simp add: get_last_minus_first_def Let_def)
qed

text \<open>
  Claim C7, as stated, fails: with \<open>min_group = 1 > max_group = 0\<close> on a ramp of two
  groups the function raises nothing and returns a slope estimate, the first group minus
  the second.
\<close>

theorem get_last_minus_first_reversed_counterexample:
  "map_sum id (\<lambda>(lmf, median_lmf). map (cell3 lmf 0 0) [0..<2])
     (get_last_minus_first ramp12 (Some 1) (Some 0)) = Inr [Some 1, Some (- 1)]"
  by code_simp

lemma ramp12_slope: "slope ramp12 0 1 0 0 1 = Some 1"
  by code_simp

theorem get_last_minus_first_slope_witness:
  "(\<exists>lmf median_lmf. get_last_minus_first ramp12 None None = Inr (lmf, median_lmf)
      \<and> cell3 lmf 0 0 1 = Some 1)
   \<and> (\<exists>lmf median_lmf. get_last_minus_first ramp12 (Some 1) (Some 1) = Inr (lmf, median_lmf)
      \<and> cell3 lmf 0 0 1 = Some 0)"
proof -
  have a: "(0::nat) < nints ramp12" "(0::nat) < rrows ramp12" "(1::nat) < rcols ramp12"
    by (simp_all add: ramp12_def)
  have d: "0 \<le> group_or 0 None" "group_or 0 None \<le> group_or (int (ngroups ramp12) - 1) None"
    "group_or (int (ngroups ramp12) - 1) None < int (ngroups ramp12)"
    by (simp_all add: group_or_def ramp12_def)
  have e: "0 \<le> group_or 0 (Some 1)"
    "group_or 0 (Some 1) \<le> group_or (int (ngroups ramp12) - 1) (Some 1)"
    "group_or (int (ngroups ramp12) - 1) (Some 1) < int (ngroups ramp12)"
    by (simp_all add: group_or_def ramp12_def)
  have n: "nat (group_or 0 None) = 0" "nat (group_or (int (ngroups ramp12) - 1) None) = 1"
    by (simp_all add: group_or_def ramp12_def)
  have p: "group_or 0 (Some 1) = group_or (int (ngroups ramp12) - 1) (Some 1)
      \<and> px ramp12 0 (nat (group_or 0 (Some 1))) 0 1 \<noteq> None"
    by (simp add: group_or_def ramp12_def)
  from get_last_minus_first_slope [OF d] obtain lmf median_lmf where
    "get_last_minus_first ramp12 None None = Inr (lmf, median_lmf)"
    "\<forall>i<nints ramp12. \<forall>r<rrows ramp12. \<forall>c<rcols ramp12.
       cell3 lmf i r c = slope ramp12 (nat (group_or 0 None))
             (nat (group_or (int (ngroups ramp12) - 1) None)) i r c
        \<and> (group_or 0 None = group_or (int (ngroups ramp12) - 1) None
             \<and> px ramp12 i (nat (group_or 0 None)) r c \<noteq> None
           \<longrightarrow> cell3 lmf i r c = Some 0)"
    by blast
  then have first: "\<exists>lmf median_lmf. get_last_minus_first ramp12 None None = Inr (lmf, median_lmf)
      \<and> cell3 lmf 0 0 1 = Some 1"
    using a ramp12_slope unfolding n by metis
  from get_last_minus_first_slope [OF e] obtain lmf median_lmf where
    "get_last_minus_first ramp12 (Some 1) (Some 1) = Inr (lmf, median_lmf)"
    "\<forall>i<nints ramp12. \<forall>r<rrows ramp12. \<forall>c<rcols ramp12.
       cell3 lmf i r c = slope ramp12 (nat (group_or 0 (Some 1)))
             (nat (group_or (int (ngroups ramp12) - 1) (Some 1))) i r c
        \<and> (group_or 0 (Some 1) = group_or (int (ngroups ramp12) - 1) (Some 1)
             \<and> px ramp12 i (nat (group_or 0 (Some 1))) r c \<noteq> None
           \<longrightarrow> cell3 lmf i r c = Some 0)"
    by blast
  then have "\<exists>lmf median_lmf. get_last_minus_first ramp12 (Some 1) (Some 1) = Inr (lmf, median_lmf)
      \<and> cell3 lmf 0 0 1 = Some 0"
    using a p by metis
  with first show ?thesis by blast
qed

theorem get_last_minus_first_errors_witness:
  "get_last_minus_first ramp12 (Some 0) (Some 5) = Inl IndexError
   \<and> (\<exists>gf gl lmf median_lmf. py_index (ngroups ramp12) (group_or 0 (Some 1)) = Inr gf
         \<and> py_index (ngroups ramp12) (group_or (int (ngroups ramp12) - 1) (Some 0)) = Inr gl
         \<and> get_last_minus_first ramp12 (Some 1) (Some 0) = Inr (lmf, median_lmf)
         \<and> cell3 lmf 0 0 0 = slope ramp12 gf gl 0 0 0)
   \<and> (\<exists>res. get_last_minus_first ramp02 (Some 0) (Some 5) = Inr res)"
proof -
  have n: "(0::nat) < nints ramp12" "nints ramp02 = 0"
    by (simp_all add: ramp12_def ramp02_def)
  have bad: "0 < nints ramp12
      \<and> (group_or 0 (Some 0) < - int (ngroups ramp12) \<or> int (ngroups ramp12) \<le> group_or 0 (Some 0)
         \<or> group_or (int (ngroups ramp12) - 1) (Some 5) < - int (ngroups ramp12)
         \<or> int (ngroups ramp12) \<le> group_or (int (ngroups ramp12) - 1) (Some 5))"
    by (simp add: group_or_def ramp12_def)
  have good: "- int (ngroups ramp12) \<le> group_or 0 (Some 1)
      \<and> group_or 0 (Some 1) < int (ngroups ramp12)
      \<and> - int (ngroups ramp12) \<le> group_or (int (ngroups ramp12) - 1) (Some 0)
      \<and> group_or (int (ngroups ramp12) - 1) (Some 0) < int (ngroups ramp12)"
    by (simp add: group_or_def ramp12_def)
  have "get_last_minus_first ramp12 (Some 0) (Some 5) = Inl IndexError"
    using get_last_minus_first_errors [of ramp12 "Some 0" "Some 5"] bad by blast
  moreover have "\<exists>gf gl lmf median_lmf. py_index (ngroups ramp12) (group_or 0 (Some 1)) = Inr gf
         \<and> py_index (ngroups ramp12) (group_or (int (ngroups ramp12) - 1) (Some 0)) = Inr gl
         \<and> get_last_minus_first ramp12 (Some 1) (Some 0) = Inr (lmf, median_lmf)
         \<and> cell3 lmf 0 0 0 = slope ramp12 gf gl 0 0 0"
    using get_last_minus_first_errors [of ramp12 "Some 1" "Some 0"] good n(1) by metis
  moreover have "\<exists>res. get_last_minus_first ramp02 (Some 0) (Some 5) = Inr res"
    using get_last_minus_first_errors [of ramp02 "Some 0" "Some 5"] n(2) by blast
  ultimately show ?thesis by blast
qed

subsection \<open>The LOOM system and model\<close>

lemma loom_fold_shape:
  "nrows (fst (fold (loom_column_step data msk nrows_j) js Ab)) = nrows (fst Ab)
   \<and> ncols (fst (fold (loom_column_step data msk nrows_j) js Ab)) = ncols (fst Ab)
   \<and> length (snd (fold (loom_column_step data msk nrows_j) js Ab)) = length (snd Ab)"
  by (induction js arbitrary: Ab) (simp_all add: loom_column_step_def set_cell_def)

lemma loom_fold_A:
  "cell (fst (fold (loom_column_step data msk nrows_j) js Ab)) r c =
     (if r = c \<and> 2 \<le> r \<and> r - 2 \<in> set js then nrows_j ! (r - 2) else cell (fst Ab) r c)"
proof (induction js arbitrary: Ab)
  case Nil
  then show ?case by simp
next
  case (Cons j js)
  have step: "cell (fst (loom_column_step data msk nrows_j j Ab)) r c =
      (if r = c \<and> 2 \<le> r \<and> r - 2 = j then nrows_j ! (r - 2) else cell (fst Ab) r c)"
    by (auto simp: loom_column_step_def set_cell_def)
  show ?case
    using Cons.IH [of "loom_column_step data msk nrows_j j Ab"] step by auto
qed

lemma loom_fold_b:
  assumes "distinct js" "k < length (snd Ab)"
  shows "snd (fold (loom_column_step data msk nrows_j) js Ab) ! k =
     (if 2 \<le> k \<and> k - 2 \<in> set js then fsum (column (mask_times msk data) (k - 2)) else snd Ab ! k)"
  using assms
proof (induction js arbitrary: Ab)
  case Nil
  then show ?case by simp
next
  case (Cons j js)
  let ?Ab = "loom_column_step data msk nrows_j j Ab"
  have len: "length (snd ?Ab) = length (snd Ab)"
    by (simp add: loom_column_step_def)
  have step: "snd ?Ab ! k =
      (if 2 \<le> k \<and> k - 2 = j then fsum (column (mask_times msk data) (k - 2)) else snd Ab ! k)"
    using Cons.prems(2) by (auto simp: loom_column_step_def nth_list_update)
  have "distinct js" "j \<notin> set js" using Cons.prems(1) by simp_all
  then show ?case
    using Cons.IH [of ?Ab] step len Cons.prems(2) by auto
qed

lemma add_column_fold_shape:
  "nrows (fold (add_column x) js a) = nrows a \<and> ncols (fold (add_column x) js a) = ncols a"
  by (induction js arbitrary: a) (simp_all add: add_column_def)

lemma add_column_fold_cell:
  assumes "distinct js"
  shows "cell (fold (add_column x) js a) r c =
     (if c \<in> set js then fadd (cell a r c) (x ! (c + 2)) else cell a r c)"
  using assms
proof (induction js arbitrary: a)
  case Nil
  then show ?case by simp
next
  case (Cons j js)
  have step: "cell (add_column x j a) r c =
      (if c = j then fadd (cell a r c) (x ! (c + 2)) else cell a r c)"
    by (simp add: add_column_def)
  have "distinct js" "j \<notin> set js" using Cons.prems by simp_all
  then show ?case
    using Cons.IH [of "add_column x j a"] step by auto
qed

lemma fadd_zero_left [simp]: "fadd (Some 0) v = v"
  by (cases v) (simp_all add: fadd_def)

lemma get_loom_result:
  "get_loom lsmr data msk False = Model (model_of (get_loom lsmr data msk True))"
  "get_loom lsmr data msk True =
     ModelParameters (model_of (get_loom lsmr data msk True))
       (lsmr (fst (loom_system data msk)) (snd (loom_system data msk)))"
  by (simp_all add: get_loom_def Let_def model_of_def)

lemma model_of_get_loom: "model_of (get_loom lsmr data msk rp) = model_of (get_loom lsmr data msk True)"
  by (simp add: get_loom_def Let_def model_of_def)

lemma get_loom_shape:
  "nrows (model_of (get_loom lsmr data msk rp)) = nrows data"
  "ncols (model_of (get_loom lsmr data msk rp)) = ncols data"
  by (simp_all add: get_loom_def Let_def model_of_def add_column_fold_shape add_rows_from_def fzeros_def)

lemma get_loom_cell:
  assumes "c < ncols data"
  shows "cell (model_of (get_loom lsmr data msk rp)) r c =
     fadd (if odd r then lsmr (fst (loom_system data msk)) (snd (loom_system data msk)) ! 0
           else lsmr (fst (loom_system data msk)) (snd (loom_system data msk)) ! 1)
          (lsmr (fst (loom_system data msk)) (snd (loom_system data msk)) ! (c + 2))"
proof -
  have odd_r: "1 \<le> r \<and> even (r - 1)" if "odd r"
    using that by (cases r) simp_all
  show ?thesis
    using assms odd_r
    by (auto simp: get_loom_def Let_def model_of_def add_column_fold_cell add_rows_from_def fzeros_def)
qed

lemma loom_system_shape:
  "nrows (fst (loom_system data msk)) = ncols data + 2"
  "ncols (fst (loom_system data msk)) = ncols data + 2"
  "length (snd (loom_system data msk)) = ncols data + 2"
  by (simp_all add: loom_system_def Let_def loom_fold_shape set_row_tail_def set_col_tail_def
      set_cell_def zeros_def)

lemma loom_system_A:
  "cell (fst (loom_system data msk)) r c =
     (if r = c \<and> 2 \<le> r \<and> r - 2 < ncols data then sum_axis0 msk ! (r - 2)
      else if c = 1 \<and> 2 \<le> r then sum_axis0 (rows_from 0 msk) ! (r - 2)
      else if c = 0 \<and> 2 \<le> r then sum_axis0 (rows_from 1 msk) ! (r - 2)
      else if r = 1 \<and> 2 \<le> c then sum_axis0 (rows_from 0 msk) ! (c - 2)
      else if r = 1 \<and> c = 1 then sum_list (every_other 0 (sum_axis1 msk))
      else if r = 0 \<and> 2 \<le> c then sum_axis0 (rows_from 1 msk) ! (c - 2)
      else if r = 0 \<and> c = 0 then sum_list (every_other 1 (sum_axis1 msk))
      else 0)"
  by (auto simp: loom_system_def Let_def loom_fold_A set_row_tail_def set_col_tail_def
      set_cell_def zeros_def)

lemma loom_system_b:
  assumes "k < ncols data + 2"
  shows "snd (loom_system data msk) ! k =
     (if 2 \<le> k then fsum (column (mask_times msk data) (k - 2))
      else if k = 1 then fsum (flat (mask_times (rows_from 0 msk) (rows_from 0 data)))
      else fsum (flat (mask_times (rows_from 1 msk) (rows_from 1 data))))"
proof (cases "2 \<le> k")
  case True
  then have "k - 2 < ncols data" using assms by simp
  then show ?thesis
    using assms True
    by (simp add: loom_system_def Let_def loom_fold_b nth_list_update)
next
  case False
  then have "k = 0 \<or> k = 1" by auto
  then show ?thesis
    by (auto simp: loom_system_def Let_def loom_fold_b nth_list_update)
qed

lemma parity_column_cells_map:
  "k < 2 \<Longrightarrow> parity_column_cells k a j =
     map (\<lambda>i. (2 * i + k, j)) [0..<(nrows a - k + 1) div 2]"
proof -
  assume k: "k < 2"
  have "parity_column_cells k a j = map (\<lambda>i. (i, j)) (filter (\<lambda>i. i mod 2 = k) [0..<nrows a])"
    by (simp add: parity_column_cells_def column_cells_def filter_map comp_def)
  then show ?thesis by (simp add: parity_rows [OF k] comp_def)
qed

lemma sum_axis0_cells:
  "j < ncols a \<Longrightarrow> sum_axis0 a ! j = sum_list (map (\<lambda>(i, j). cell a i j) (column_cells a j))"
  by (simp add: sum_axis0_def column_cells_map)

lemma sum_axis0_rows_from:
  assumes "k < 2" "j < ncols a"
  shows "sum_axis0 (rows_from k a) ! j = sum_list (map (\<lambda>(i, j). cell a i j) (parity_column_cells k a j))"
proof -
  have "sum_axis0 (rows_from k a) ! j = sum_list (column (rows_from k a) j)"
    using assms(2) by (simp add: sum_axis0_def rows_from_def)
  also have "column (rows_from k a) j = map (\<lambda>(i, j). cell a i j) (parity_column_cells k a j)"
    by (simp add: parity_column_cells_map [OF assms(1)] column_def rows_from_def comp_def)
  finally show ?thesis .
qed

lemma sum_list_map_concat:
  "sum_list (map f (concat xss)) = sum_list (map (\<lambda>xs. sum_list (map f xs)) xss)"
  by (induction xss) simp_all

lemma every_other_sum_axis1:
  assumes "k < 2"
  shows "sum_list (every_other k (sum_axis1 a)) = sum_list (map (\<lambda>(i, j). cell a i j) (parity_cells k a))"
proof -
  let ?rs = "\<lambda>i. sum_list (map (cell a i) [0..<ncols a])"
  have k: "k = 0 \<or> k = 1" using assms by auto
  have bound: "2 * i + k < nrows a" if "i < (nrows a - k + 1) div 2" for i
    using that k by auto
  have "every_other k (sum_axis1 a) = map (\<lambda>i. ?rs (2 * i + k)) [0..<(nrows a - k + 1) div 2]"
    using bound by (simp add: every_other_def sum_axis1_def)
  also have "\<dots> = map ?rs (filter (\<lambda>i. i mod 2 = k) [0..<nrows a])"
    by (simp add: parity_rows [OF assms] comp_def)
  finally have "sum_list (every_other k (sum_axis1 a))
      = sum_list (map ?rs (filter (\<lambda>i. i mod 2 = k) [0..<nrows a]))"
    by simp
  also have "\<dots> = sum_list (map (\<lambda>(i, j). cell a i j) (parity_cells k a))"
    by (simp add: parity_cells_def sum_list_map_concat comp_def)
  finally show ?thesis .
qed

lemma flat_mask_times_rows:
  assumes "k < 2" "congruent data msk"
  shows "flat (mask_times (rows_from k msk) (rows_from k data))
     = map (\<lambda>(i, j). fmul (Some (cell msk i j)) (cell data i j)) (parity_cells k data)"
proof -
  have "mask_times (rows_from k msk) (rows_from k data) = rows_from k (mask_times msk data)"
    by (simp add: mask_times_def rows_from_def)
  moreover have "parity_cells k (mask_times msk data) = parity_cells k data"
    by (simp add: parity_cells_def mask_times_def)
  ultimately show ?thesis
    using flat_rows_from [OF assms(1), of "mask_times msk data"]
    by (simp add: mask_times_def)
qed

lemma column_mask_times:
  "column (mask_times msk data) j
     = map (\<lambda>(i, j). fmul (Some (cell msk i j)) (cell data i j)) (column_cells data j)"
  by (simp add: column_def column_cells_def mask_times_def comp_def)

lemma ones_sum:
  assumes "\<forall>(i, j)\<in>set idx. cell msk i j = 0 \<or> cell msk i j = 1"
  shows "sum_list (map (\<lambda>(i, j). cell msk i j) idx) = count_ones msk idx"
  using assms by (induction idx) (auto simp: count_ones_def)

lemma fsum_kept:
  assumes "\<forall>(i, j)\<in>set idx. (cell msk i j = 0 \<or> cell msk i j = 1) \<and> cell data i j \<noteq> None"
  shows "fsum (map (\<lambda>(i, j). fmul (Some (cell msk i j)) (cell data i j)) idx)
     = Some (sum_list (kept data msk idx))"
  using assms by (induction idx) (auto simp: fsum_def kept_def fmul_def fadd_def)

lemma parity_cells_bounds: "(i, j) \<in> set (parity_cells k a) \<Longrightarrow> i < nrows a \<and> j < ncols a"
  by (auto simp: parity_cells_def)

lemma column_cells_bounds: "(i, c) \<in> set (column_cells a j) \<Longrightarrow> i < nrows a \<and> c = j"
  by (auto simp: column_cells_def)

lemma parity_column_cells_bounds:
  "(i, c) \<in> set (parity_column_cells k a j) \<Longrightarrow> i < nrows a \<and> c = j"
  by (auto simp: parity_column_cells_def column_cells_def)

lemma parity_column_cells_shape:
  "nrows a = nrows b \<Longrightarrow> parity_column_cells k a j = parity_column_cells k b j"
  by (simp add: parity_column_cells_def column_cells_def)

text \<open>
  Claim C1. For a real-valued frame with \<open>columns\<close> columns and a congruent 0/1 mask,
  \<open>get_loom\<close> builds a \<open>(columns + 2) \<times> (columns + 2)\<close> system. Row 0 has the number of
  kept pixels on odd rows on the diagonal, 0 next to it, the odd-row counts of the columns
  in the entries \<open>j + 2\<close>, and the sum of the kept pixels on odd rows as right-hand side; row 1
  is the same for even rows. Row \<open>j + 2\<close> has the odd and even counts of column \<open>j\<close> in its
  first two entries, the count of column \<open>j\<close> on the diagonal, 0 in the other entries, and the
  sum of the kept pixels of column \<open>j\<close> as right-hand side. The model is \<open>x[0]\<close> on odd rows
  plus \<open>x[1]\<close> on even rows plus \<open>x[j + 2]\<close> on column \<open>j\<close> for the solution \<open>x\<close> of the solver,
  and \<open>x\<close> is returned with the model exactly when the flag is set.
\<close>

theorem get_loom_normal_equations:
  assumes "congruent data msk" and "is_mask msk" and "real_valued data"
  shows "nrows (loom_A data msk) = ncols data + 2 \<and> ncols (loom_A data msk) = ncols data + 2
    \<and> length (loom_b data msk) = ncols data + 2
    \<and> cell (loom_A data msk) 0 0 = count_ones msk (parity_cells 1 data)
    \<and> cell (loom_A data msk) 0 1 = 0
    \<and> loom_b data msk ! 0 = Some (sum_list (kept data msk (parity_cells 1 data)))
    \<and> cell (loom_A data msk) 1 0 = 0
    \<and> cell (loom_A data msk) 1 1 = count_ones msk (parity_cells 0 data)
    \<and> loom_b data msk ! 1 = Some (sum_list (kept data msk (parity_cells 0 data)))
    \<and> (\<forall>j<ncols data.
          cell (loom_A data msk) 0 (j + 2) = count_ones msk (parity_column_cells 1 data j)
        \<and> cell (loom_A data msk) 1 (j + 2) = count_ones msk (parity_column_cells 0 data j)
        \<and> cell (loom_A data msk) (j + 2) 0 = count_ones msk (parity_column_cells 1 data j)
        \<and> cell (loom_A data msk) (j + 2) 1 = count_ones msk (parity_column_cells 0 data j)
        \<and> cell (loom_A data msk) (j + 2) (j + 2) = count_ones msk (column_cells data j)
        \<and> (\<forall>k<ncols data. k \<noteq> j \<longrightarrow> cell (loom_A data msk) (j + 2) (k + 2) = 0)
        \<and> loom_b data msk ! (j + 2) = Some (sum_list (kept data msk (column_cells data j))))
    \<and> get_loom lsmr data msk False = Model (model_of (get_loom lsmr data msk True))
    \<and> get_loom lsmr data msk True
        = ModelParameters (model_of (get_loom lsmr data msk True)) (loom_x lsmr data msk)
    \<and> congruent (model_of (get_loom lsmr data msk True)) data
    \<and> (\<forall>r<nrows data. \<forall>c<ncols data.
          cell (model_of (get_loom lsmr data msk True)) r c =
            fadd (if odd r then loom_x lsmr data msk ! 0 else loom_x lsmr data msk ! 1)
                 (loom_x lsmr data msk ! (c + 2)))"
proof -
  let ?A = "loom_A data msk" and ?b = "loom_b data msk"
  have sh: "nrows msk = nrows data" "ncols msk = ncols data"
    using assms(1) by (simp_all add: congruent_def)
  have inb: "(cell msk i j = 0 \<or> cell msk i j = 1) \<and> cell data i j \<noteq> None"
    if "i < nrows data" "j < ncols data" for i j
    using assms(2,3) that sh by (simp add: is_mask_def real_valued_def)
  have cnt: "sum_list (map (\<lambda>(i, j). cell msk i j) L) = count_ones msk L"
    if "\<forall>(i, j)\<in>set L. i < nrows data \<and> j < ncols data" for L
    using that inb by (intro ones_sum) fastforce
  have sm: "fsum (map (\<lambda>(i, j). fmul (Some (cell msk i j)) (cell data i j)) L)
      = Some (sum_list (kept data msk L))"
    if "\<forall>(i, j)\<in>set L. i < nrows data \<and> j < ncols data" for L
    using that inb by (intro fsum_kept) fastforce
  have bp: "\<forall>(i, j)\<in>set (parity_cells k data). i < nrows data \<and> j < ncols data" for k
    using parity_cells_bounds by fastforce
  have bc: "\<forall>(i, c)\<in>set (column_cells data j). i < nrows data \<and> c < ncols data"
    if "j < ncols data" for j
    using column_cells_bounds that by fastforce
  have bpc: "\<forall>(i, c)\<in>set (parity_column_cells k data j). i < nrows data \<and> c < ncols data"
    if "j < ncols data" for j k
    using parity_column_cells_bounds that by fastforce
  have pc: "parity_cells k msk = parity_cells k data" for k
    using sh by (intro parity_cells_shape) simp_all
  have cc: "column_cells msk j = column_cells data j" for j
    using sh by (intro column_cells_shape) simp
  have pcc: "parity_column_cells k msk j = parity_column_cells k data j" for k j
    using sh by (intro parity_column_cells_shape) simp
  have nO: "sum_list (every_other 1 (sum_axis1 msk)) = count_ones msk (parity_cells 1 data)"
    using every_other_sum_axis1 [of 1 msk] cnt [OF bp] by (simp add: pc)
  have nE: "sum_list (every_other 0 (sum_axis1 msk)) = count_ones msk (parity_cells 0 data)"
    using every_other_sum_axis1 [of 0 msk] cnt [OF bp] by (simp add: pc)
  have nodd: "sum_axis0 (rows_from 1 msk) ! j = count_ones msk (parity_column_cells 1 data j)"
    if "j < ncols data" for j
    using sum_axis0_rows_from [of 1 j msk] cnt [OF bpc [OF that]] that sh by (simp add: pcc)
  have neven: "sum_axis0 (rows_from 0 msk) ! j = count_ones msk (parity_column_cells 0 data j)"
    if "j < ncols data" for j
    using sum_axis0_rows_from [of 0 j msk] cnt [OF bpc [OF that]] that sh by (simp add: pcc)
  have ncol: "sum_axis0 msk ! j = count_ones msk (column_cells data j)"
    if "j < ncols data" for j
    using sum_axis0_cells [of j msk] cnt [OF bc [OF that]] that sh by (simp add: cc)
  have b0: "?b ! 0 = Some (sum_list (kept data msk (parity_cells 1 data)))"
    using loom_system_b [of 0 data msk] flat_mask_times_rows [of 1 data msk] assms(1) sm [OF bp]
    by (simp add: loom_b_def)
  have b1: "?b ! 1 = Some (sum_list (kept data msk (parity_cells 0 data)))"
    using loom_system_b [of 1 data msk] flat_mask_times_rows [of 0 data msk] assms(1) sm [OF bp]
    by (simp add: loom_b_def)
  have bj: "?b ! (j + 2) = Some (sum_list (kept data msk (column_cells data j)))"
    if "j < ncols data" for j
    using loom_system_b [of "j + 2" data msk] that sm [OF bc [OF that]]
    by (simp add: loom_b_def column_mask_times)
  have rows: "cell ?A 0 (j + 2) = count_ones msk (parity_column_cells 1 data j)
        \<and> cell ?A 1 (j + 2) = count_ones msk (parity_column_cells 0 data j)
        \<and> cell ?A (j + 2) 0 = count_ones msk (parity_column_cells 1 data j)
        \<and> cell ?A (j + 2) 1 = count_ones msk (parity_column_cells 0 data j)
        \<and> cell ?A (j + 2) (j + 2) = count_ones msk (column_cells data j)
        \<and> (\<forall>k<ncols data. k \<noteq> j \<longrightarrow> cell ?A (j + 2) (k + 2) = 0)
        \<and> ?b ! (j + 2) = Some (sum_list (kept data msk (column_cells data j)))"
    if "j < ncols data" for j
    using that nodd [OF that] neven [OF that] ncol [OF that] bj [OF that]
    by (simp add: loom_A_def loom_system_A)
  have top: "cell ?A 0 0 = count_ones msk (parity_cells 1 data) \<and> cell ?A 0 1 = 0
      \<and> cell ?A 1 0 = 0 \<and> cell ?A 1 1 = count_ones msk (parity_cells 0 data)"
    using nO nE by (simp add: loom_A_def loom_system_A)
  have shape: "nrows ?A = ncols data + 2 \<and> ncols ?A = ncols data + 2 \<and> length ?b = ncols data + 2"
    by (simp add: loom_A_def loom_b_def loom_system_shape)
  have res: "get_loom lsmr data msk False = Model (model_of (get_loom lsmr data msk True))
    \<and> get_loom lsmr data msk True
        = ModelParameters (model_of (get_loom lsmr data msk True)) (loom_x lsmr data msk)"
    using get_loom_result [of lsmr data msk] by (simp add: loom_x_def loom_A_def loom_b_def)
  have cong: "congruent (model_of (get_loom lsmr data msk True)) data"
    by (simp add: congruent_def get_loom_shape)
  have model: "\<forall>r<nrows data. \<forall>c<ncols data.
          cell (model_of (get_loom lsmr data msk True)) r c =
            fadd (if odd r then loom_x lsmr data msk ! 0 else loom_x lsmr data msk ! 1)
                 (loom_x lsmr data msk ! (c + 2))"
    using get_loom_cell [of _ data lsmr msk True]
    by (simp add: loom_x_def loom_A_def loom_b_def)
  from shape top b0 b1 rows res cong model show ?thesis by blast
qed

lemma frame22_system:
  "count_ones (ones 2 2) (parity_cells 1 frame22) = 2
   \<and> sum_list (kept frame22 (ones 2 2) (parity_cells 1 frame22)) = 7
   \<and> count_ones (ones 2 2) (column_cells frame22 0) = 2
   \<and> sum_list (kept frame22 (ones 2 2) (column_cells frame22 0)) = 4
   \<and> loom_x lsmr22 frame22 (ones 2 2) = map Some [9 / 4, 1 / 4, 3 / 4, 7 / 4]"
  by code_simp

theorem get_loom_normal_equations_witness:
  "cell (loom_A frame22 (ones 2 2)) 0 0 = 2
   \<and> loom_b frame22 (ones 2 2) ! 0 = Some 7
   \<and> cell (loom_A frame22 (ones 2 2)) (0 + 2) (0 + 2) = 2
   \<and> cell (loom_A frame22 (ones 2 2)) (0 + 2) (1 + 2) = 0
   \<and> loom_b frame22 (ones 2 2) ! (0 + 2) = Some 4
   \<and> get_loom lsmr22 frame22 (ones 2 2) False
        = Model (model_of (get_loom lsmr22 frame22 (ones 2 2) True))
   \<and> cell (model_of (get_loom lsmr22 frame22 (ones 2 2) True)) 1 0 = Some 3"
proof -
  have h: "congruent frame22 (ones 2 2)" "is_mask (ones 2 2)" "real_valued frame22"
    using frame22_hyps by simp_all
  have b: "(0::nat) < ncols frame22" "(1::nat) < ncols frame22" "(1::nat) < nrows frame22"
    "(1::nat) \<noteq> 0"
    by (simp_all add: frame22_def)
  note t = get_loom_normal_equations [OF h, of lsmr22]
  have "cell (model_of (get_loom lsmr22 frame22 (ones 2 2) True)) 1 0 =
      fadd (if odd (1::nat) then loom_x lsmr22 frame22 (ones 2 2) ! 0
            else loom_x lsmr22 frame22 (ones 2 2) ! 1)
           (loom_x lsmr22 frame22 (ones 2 2) ! (0 + 2))"
    using t b by blast
  then have m: "cell (model_of (get_loom lsmr22 frame22 (ones 2 2) True)) 1 0 = Some 3"
    using frame22_system by (simp add: fadd_def)
  have "cell (loom_A frame22 (ones 2 2)) (0 + 2) (1 + 2) = 0"
    using t b by blast
  moreover have "cell (loom_A frame22 (ones 2 2)) (0 + 2) (0 + 2) = 2"
    "loom_b frame22 (ones 2 2) ! (0 + 2) = Some 4"
    using t b(1) frame22_system by auto
  moreover have "cell (loom_A frame22 (ones 2 2)) 0 0 = 2" "loom_b frame22 (ones 2 2) ! 0 = Some 7"
    "get_loom lsmr22 frame22 (ones 2 2) False
        = Model (model_of (get_loom lsmr22 frame22 (ones 2 2) True))"
    using t frame22_system by auto
  ultimately show ?thesis using m by blast
qed

subsection \<open>A column without kept pixels\<close>

lemma sum_list_all_zero: "(\<forall>x\<in>set xs. f x = (0::real)) \<Longrightarrow> sum_list (map f xs) = 0"
  by (induction xs) simp_all

lemma fsum_all_zero: "(\<forall>x\<in>set xs. f x = Some 0) \<Longrightarrow> fsum (map f xs) = Some 0"
  by (induction xs) (simp_all add: fsum_def)

lemma nanmedian_all_nan: "(\<forall>x\<in>set l. x = None) \<Longrightarrow> nanmedian l = None"
proof -
  assume "\<forall>x\<in>set l. x = None"
  then have "[x. Some x \<leftarrow> l] = []" by (induction l) simp_all
  then show ?thesis unfolding nanmedian_def by (simp only: median_Nil)
qed

lemma empty_column_statistics:
  assumes "j < ncols data" "\<forall>i<nrows data. cell msk i j = 0"
  shows "cc_column_medians data msk ! j = None \<and> cc_column_mads data msk ! j = None"
proof -
  have "cc_column_medians data msk ! j = nanmedian (column (nan_where_zero data msk) j)"
    using assms(1) by (simp add: cc_column_medians_def nanmedian_axis0_def)
  moreover have "\<forall>x\<in>set (column (nan_where_zero data msk) j). x = None"
    using assms(2) by (auto simp: column_def nan_where_zero_def)
  ultimately have med: "cc_column_medians data msk ! j = None"
    using nanmedian_all_nan by simp
  let ?dev = "(nan_where_zero data msk)\<lparr>cell := (\<lambda>i j. fabs (fsub (cell (nan_where_zero data msk) i j)
      (cc_column_medians data msk ! j)))\<rparr>"
  have "cc_column_mads data msk ! j = nanmedian (column ?dev j)"
    using assms(1) by (simp add: cc_column_mads_def Let_def nanmedian_axis0_def)
  moreover have "\<forall>x\<in>set (column ?dev j). x = None"
    using assms(2) by (auto simp: column_def nan_where_zero_def fabs_def fsub_def)
  ultimately have "cc_column_mads data msk ! j = None"
    using nanmedian_all_nan by simp
  with med show ?thesis by simp
qed

lemma empty_column_sums:
  assumes "congruent data msk" "j < ncols data" "\<forall>i<nrows data. cell msk i j = 0"
  shows "sum_axis0 msk ! j = 0" "sum_axis0 (rows_from 0 msk) ! j = 0" "sum_axis0 (rows_from 1 msk) ! j = 0"
proof -
  have sh: "nrows msk = nrows data" "ncols msk = ncols data"
    using assms(1) by (simp_all add: congruent_def)
  have z: "\<forall>(i, c)\<in>set L. cell msk i c = 0"
    if "\<forall>(i, c)\<in>set L. i < nrows msk \<and> c = j" for L
    using that assms(3) sh by fastforce
  have z1: "\<forall>(i, c)\<in>set (column_cells msk j). cell msk i c = 0"
    using column_cells_bounds by (intro z) fastforce
  have z2: "\<forall>(i, c)\<in>set (parity_column_cells k msk j). cell msk i c = 0" for k
    using parity_column_cells_bounds by (intro z) fastforce
  show "sum_axis0 msk ! j = 0"
    using sum_axis0_cells [of j msk] assms(2) sh z1
    by (simp add: sum_list_all_zero case_prod_beta)
  show "sum_axis0 (rows_from 0 msk) ! j = 0"
    using sum_axis0_rows_from [of 0 j msk] assms(2) sh z2 [of 0]
    by (simp add: sum_list_all_zero case_prod_beta)
  show "sum_axis0 (rows_from 1 msk) ! j = 0"
    using sum_axis0_rows_from [of 1 j msk] assms(2) sh z2 [of 1]
    by (simp add: sum_list_all_zero case_prod_beta)
qed

lemma empty_column_system:
  assumes "congruent data msk" "real_valued data" "j < ncols data"
    "\<forall>i<nrows data. cell msk i j = 0"
  shows "(\<forall>k. cell (loom_A data msk) (j + 2) k = 0 \<and> cell (loom_A data msk) k (j + 2) = 0)
    \<and> loom_b data msk ! (j + 2) = Some 0"
proof -
  note s = empty_column_sums [OF assms(1,3,4)]
  have A: "cell (loom_A data msk) (j + 2) k = 0 \<and> cell (loom_A data msk) k (j + 2) = 0" for k
    using s assms(3) by (simp add: loom_A_def loom_system_A)
  have "\<forall>(i, c)\<in>set (column_cells data j). fmul (Some (cell msk i c)) (cell data i c) = Some 0"
  proof -
    have "fmul (Some (cell msk i j)) (cell data i j) = Some 0" if i: "i < nrows data" for i
    proof -
      obtain x where "cell data i j = Some x"
        using assms(2,3) i by (auto simp: real_valued_def)
      then show ?thesis using assms(4) i by (simp add: fmul_def)
    qed
    then show ?thesis using column_cells_bounds by fastforce
  qed
  then have "fsum (column (mask_times msk data) j) = Some 0"
    unfolding column_mask_times by (intro fsum_all_zero) (simp add: case_prod_beta)
  then have "loom_b data msk ! (j + 2) = Some 0"
    using loom_system_b [of "j + 2" data msk] assms(3) by (simp add: loom_b_def)
  with A show ?thesis by blast
qed

lemma norm2_update:
  "p < length xs \<Longrightarrow> norm2 (xs[p := 0]) = norm2 xs - (xs ! p)\<^sup>2"
proof (induction xs arbitrary: p)
  case Nil
  then show ?case by simp
next
  case (Cons x xs)
  then show ?case by (cases p) (simp_all add: norm2_def)
qed

lemma lin_apply_zero_column:
  assumes "cell A i p = 0"
  shows "lin_apply A (y[p := 0]) i = lin_apply A y i"
proof -
  have "cell A i k * y[p := 0] ! k = cell A i k * y ! k" for k
    using assms by (cases "k = p") simp_all
  then have "(\<lambda>k. cell A i k * y[p := 0] ! k) = (\<lambda>k. cell A i k * y ! k)"
    by (intro ext)
  then show ?thesis unfolding lin_apply_def by (rule arg_cong)
qed

lemma min_norm_zero_column:
  assumes "is_min_norm_lsq A b x" "p < ncols A" "\<forall>i. cell A i p = 0"
  shows "x ! p = 0"
proof -
  let ?y = "x[p := 0]"
  have len: "length x = ncols A" using assms(1) by (simp add: is_min_norm_lsq_def)
  have "residual A b ?y = residual A b x"
    using assms(3) by (simp add: residual_def lin_apply_zero_column)
  moreover have "length ?y = ncols A" using len by simp
  ultimately have "norm2 x \<le> norm2 ?y"
    using assms(1) unfolding is_min_norm_lsq_def by (metis order_refl)
  then have "(x ! p)\<^sup>2 \<le> 0"
    using norm2_update [of p x] assms(2) len by simp
  then show ?thesis by simp
qed

text \<open>
  Claim C6. Let column \<open>j\<close> of the mask be all zero, for a real-valued frame and a
  congruent mask. The column statistics of \<open>cc_uniluminated_outliers\<close> for that column are
  the marker NaN, not a number: the median and the MAD. In the system of \<open>get_loom\<close>, row
  and column \<open>j + 2\<close> of the matrix are zero and so is the right-hand side, so the system is
  singular; \<open>get_loom\<close> returns a model and a parameter vector whatever the solver returns,
  and when the solver returns a minimum-norm least-squares solution the coefficient of
  column \<open>j\<close> is 0 and the model in that column is the parity level alone.
\<close>

theorem empty_column_loom:
  assumes "congruent data msk" and "real_valued data" and "j < ncols data"
    and "\<forall>i<nrows data. cell msk i j = 0"
  shows "cc_column_medians data msk ! j = None \<and> cc_column_mads data msk ! j = None
    \<and> (\<forall>k<ncols data + 2.
          cell (loom_A data msk) (j + 2) k = 0 \<and> cell (loom_A data msk) k (j + 2) = 0)
    \<and> loom_b data msk ! (j + 2) = Some 0
    \<and> get_loom lsmr data msk True
        = ModelParameters (model_of (get_loom lsmr data msk True)) (loom_x lsmr data msk)
    \<and> (\<forall>b x. loom_b data msk = map Some b \<and> loom_x lsmr data msk = map Some x
            \<and> is_min_norm_lsq (loom_A data msk) b x
          \<longrightarrow> loom_x lsmr data msk ! (j + 2) = Some 0
            \<and> (\<forall>r<nrows data. cell (model_of (get_loom lsmr data msk True)) r j
                  = (if odd r then loom_x lsmr data msk ! 0 else loom_x lsmr data msk ! 1)))"
proof -
  note sys = empty_column_system [OF assms]
  have res: "get_loom lsmr data msk True
        = ModelParameters (model_of (get_loom lsmr data msk True)) (loom_x lsmr data msk)"
    using get_loom_result(2) [of lsmr data msk] by (simp add: loom_x_def loom_A_def loom_b_def)
  have sol: "loom_x lsmr data msk ! (j + 2) = Some 0
      \<and> (\<forall>r<nrows data. cell (model_of (get_loom lsmr data msk True)) r j
            = (if odd r then loom_x lsmr data msk ! 0 else loom_x lsmr data msk ! 1))"
    if h: "loom_b data msk = map Some b \<and> loom_x lsmr data msk = map Some x
         \<and> is_min_norm_lsq (loom_A data msk) b x" for b x
  proof -
    have p: "j + 2 < ncols (loom_A data msk)"
      using assms(3) by (simp add: loom_A_def loom_system_shape)
    have len: "length x = ncols data + 2"
      using h by (simp add: is_min_norm_lsq_def loom_A_def loom_system_shape)
    have "x ! (j + 2) = 0"
      using h sys p by (intro min_norm_zero_column [of "loom_A data msk" b]) simp_all
    then have z: "loom_x lsmr data msk ! (j + 2) = Some 0"
      using h len assms(3) by simp
    have x0: "loom_x lsmr data msk ! 0 = Some (x ! 0)" "loom_x lsmr data msk ! 1 = Some (x ! 1)"
      using h len by simp_all
    have "cell (model_of (get_loom lsmr data msk True)) r j
            = (if odd r then loom_x lsmr data msk ! 0 else loom_x lsmr data msk ! 1)" for r
      using get_loom_cell [OF assms(3), of lsmr msk True r] z x0
      by (simp add: loom_x_def loom_A_def loom_b_def fadd_def)
    with z show ?thesis by blast
  qed
  from empty_column_statistics [OF assms(3,4)] sys res sol show ?thesis by blast
qed

lemma frame12_cells:
  "map (\<lambda>i. map (cell (loom_A frame12 mask12) i) [0..<4]) [0..<4]
     = [[0, 0, 0, 0], [0, 1, 1, 0], [0, 1, 1, 0], [0, 0, 0, 0]]
   \<and> nrows (loom_A frame12 mask12) = 4 \<and> ncols (loom_A frame12 mask12) = 4
   \<and> loom_b frame12 mask12 = map Some [0, 3, 3, 0]
   \<and> loom_x lsmr12 frame12 mask12 = map Some [0, 3 / 2, 3 / 2, 0]"
  by code_simp

lemma frame12_A:
  "cell (loom_A frame12 mask12) 0 0 = 0 \<and> cell (loom_A frame12 mask12) 0 1 = 0
   \<and> cell (loom_A frame12 mask12) 0 2 = 0 \<and> cell (loom_A frame12 mask12) 0 3 = 0
   \<and> cell (loom_A frame12 mask12) 1 0 = 0 \<and> cell (loom_A frame12 mask12) 1 1 = 1
   \<and> cell (loom_A frame12 mask12) 1 2 = 1 \<and> cell (loom_A frame12 mask12) 1 3 = 0
   \<and> cell (loom_A frame12 mask12) 2 0 = 0 \<and> cell (loom_A frame12 mask12) 2 1 = 1
   \<and> cell (loom_A frame12 mask12) 2 2 = 1 \<and> cell (loom_A frame12 mask12) 2 3 = 0
   \<and> cell (loom_A frame12 mask12) 3 0 = 0 \<and> cell (loom_A frame12 mask12) 3 1 = 0
   \<and> cell (loom_A frame12 mask12) 3 2 = 0 \<and> cell (loom_A frame12 mask12) 3 3 = 0"
  by code_simp

lemma upt4: "[0..<4] = [0, 1, 2, 3]"
  by code_simp

lemma frame12_residual:
  "residual (loom_A frame12 mask12) [0, 3, 3, 0] [y0, y1, y2, y3] = 2 * (y1 + y2 - 3)\<^sup>2"
proof -
  have s: "nrows (loom_A frame12 mask12) = 4" "ncols (loom_A frame12 mask12) = 4"
    using frame12_cells by simp_all
  show ?thesis
    unfolding residual_def lin_apply_def s upt4
    using frame12_A by (simp add: numeral_2_eq_2 numeral_3_eq_3)
qed

lemma list4: "length y = 4 \<Longrightarrow> \<exists>a b c d. y = [a, b, c, d]"
  by (auto simp: numeral_eq_Suc length_Suc_conv)

lemma frame12_min_norm:
  "is_min_norm_lsq (loom_A frame12 mask12) [0, 3, 3, 0] [0, 3 / 2, 3 / 2, 0]"
  unfolding is_min_norm_lsq_def
proof (intro conjI allI impI)
  show "length [0, 3 / 2, 3 / 2, 0 :: real] = ncols (loom_A frame12 mask12)"
    using frame12_cells by simp
next
  fix y :: "real list"
  assume "length y = ncols (loom_A frame12 mask12)"
  then have "length y = 4" using frame12_cells by simp
  then obtain a b c d where y: "y = [a, b, c, d]" using list4 by blast
  show "residual (loom_A frame12 mask12) [0, 3, 3, 0] [0, 3 / 2, 3 / 2, 0]
      \<le> residual (loom_A frame12 mask12) [0, 3, 3, 0] y"
    unfolding y frame12_residual by simp
next
  fix y :: "real list"
  assume "length y = ncols (loom_A frame12 mask12)"
    and le: "residual (loom_A frame12 mask12) [0, 3, 3, 0] y
      \<le> residual (loom_A frame12 mask12) [0, 3, 3, 0] [0, 3 / 2, 3 / 2, 0]"
  then have "length y = 4" using frame12_cells by simp
  then obtain a b c d where y: "y = [a, b, c, d]" using list4 by blast
  have "2 * (b + c - 3)\<^sup>2 \<le> 0"
    using le unfolding y frame12_residual by simp
  then have "(b + c - 3)\<^sup>2 = 0"
    using zero_le_power2 [of "b + c - 3"] by linarith
  then have c: "c = 3 - b" by simp
  have sq: "0 \<le> a * a" "0 \<le> d * d" "0 \<le> (b - 3 / 2) * (b - 3 / 2)"
    by simp_all
  have e: "(b - 3 / 2) * (b - 3 / 2) = b * b - 3 * b + 9 / 4"
    by (simp add: algebra_simps)
  have f: "(3 - b) * (3 - b) = 9 - 6 * b + b * b"
    by (simp add: algebra_simps)
  have "9 / 2 \<le> a * a + (b * b + ((3 - b) * (3 - b) + d * d))"
    using sq unfolding e f by linarith
  then show "norm2 [0, 3 / 2, 3 / 2, 0] \<le> norm2 y"
    unfolding y c by (simp add: norm2_def power2_eq_square)
qed

theorem empty_column_loom_witness:
  "cc_column_medians frame12 mask12 ! 1 = None \<and> cc_column_mads frame12 mask12 ! 1 = None
   \<and> loom_b frame12 mask12 ! (1 + 2) = Some 0
   \<and> cell (loom_A frame12 mask12) (1 + 2) 2 = 0
   \<and> loom_x lsmr12 frame12 mask12 ! (1 + 2) = Some 0
   \<and> cell (model_of (get_loom lsmr12 frame12 mask12 True)) 0 1 = loom_x lsmr12 frame12 mask12 ! 1"
proof -
  have c: "congruent frame12 mask12" by (simp add: congruent_def frame12_def mask12_def)
  have r: "real_valued frame12"
    by (simp add: real_valued_def frame12_def less_Suc_eq numeral_2_eq_2)
  have j: "(1::nat) < ncols frame12" by (simp add: frame12_def)
  have z: "\<forall>i<nrows frame12. cell mask12 i 1 = 0" by (simp add: frame12_def mask12_def)
  have k: "(2::nat) < ncols frame12 + 2" "(0::nat) < nrows frame12" "even (0::nat)"
    by (simp_all add: frame12_def)
  have s: "loom_b frame12 mask12 = map Some [0, 3, 3, 0]
      \<and> loom_x lsmr12 frame12 mask12 = map Some [0, 3 / 2, 3 / 2, 0]
      \<and> is_min_norm_lsq (loom_A frame12 mask12) [0, 3, 3, 0] [0, 3 / 2, 3 / 2, 0]"
    using frame12_cells frame12_min_norm by simp
  note t = empty_column_loom [OF c r j z, of lsmr12]
  have "loom_x lsmr12 frame12 mask12 ! (1 + 2) = Some 0
      \<and> (\<forall>r<nrows frame12. cell (model_of (get_loom lsmr12 frame12 mask12 True)) r 1
            = (if odd r then loom_x lsmr12 frame12 mask12 ! 0 else loom_x lsmr12 frame12 mask12 ! 1))"
    using t s by blast
  then have "loom_x lsmr12 frame12 mask12 ! (1 + 2) = Some 0"
    "cell (model_of (get_loom lsmr12 frame12 mask12 True)) 0 1 = loom_x lsmr12 frame12 mask12 ! 1"
    using k by auto
  moreover have "cell (loom_A frame12 mask12) (1 + 2) 2 = 0"
    using t k(1) by blast
  ultimately show ?thesis using t by blast
qed

subsection \<open>The slope estimate after the correction\<close>

lemma stage1_lmf_after_reloaded:
  assumes "stage1_preamp lsmr superbias method min_kw max_kw um True loaded = Inr res"
  shows "out_refpix res = loaded
    \<and> (\<exists>median_after. get_last_minus_first loaded
          (Some (case min_kw of None \<Rightarrow> 0 | Some g \<Rightarrow> g))
          (Some (case max_kw of None \<Rightarrow> int (ngroups superbias) - 1 | Some g \<Rightarrow> g))
        = Inr (out_lmf_after res, median_after))"
  using assms
  by (auto simp: stage1_preamp_def Let_def split: sum.splits prod.splits)

text \<open>
  Claim C8 says that the slope estimate recorded after the correction is the estimate of
  \<open>get_last_minus_first\<close> on the corrected data, with the median of each group removed. The
  branch that loads an earlier product does that (lemma above). The branch that corrects
  the data does not: it stores the plain difference of the two corrected groups. On the ramp
  \<open>ramp21\<close> with \<^verbatim>\<open>'roeba'\<close> and the all-ones mask the corrected groups are 0 and -2, the
  recorded estimate is -2 at both pixels, and \<open>get_last_minus_first\<close> on the corrected data
  gives 0.
\<close>

theorem stage1_lmf_after_fresh:
  "map_sum id
     (\<lambda>res. (map (\<lambda>r. cell3 (out_lmf_after res) 0 r 0) [0..<2],
             map (\<lambda>g. map (\<lambda>r. px (out_refpix res) 0 g r 0) [0..<2]) [0..<2],
             map_sum id (\<lambda>(lmf, median_lmf). map (\<lambda>r. cell3 lmf 0 r 0) [0..<2])
               (get_last_minus_first (out_refpix res) None None)))
     (stage1_preamp lsmr22 ramp21 Roeba None None (Some (ones 2 1)) False ramp21)
   = Inr ([Some (- 2), Some (- 2)],
          [[Some 0, Some 0], [Some (- 2), Some (- 2)]],
          Inr [Some 0, Some 0])"
  by code_simp

end
